theory Spec2Isabelle
  imports Main
begin

section \<open>JavaScript values\<close>

text \<open>
  The scraper (\<^verbatim>\<open>src/main.js\<close>) works on loosely typed JSON payloads and on plain
  objects that it builds itself.  A value is one of JavaScript's shapes; an object is an
  association list in insertion order whose keys are looked up with \<open>map_of\<close>.
  Numbers are modelled by integers: the code only tests numbers for truthiness, renders
  ids with \<^verbatim>\<open>String\<close> and passes prices through, so no property below depends on a
  fractional part.
\<close>

datatype jv =
    JUndefined
  | JNull
  | JBool bool
  | JNum int
  | JStr string
  | JArr "jv list"
  | JObj "(string \<times> jv) list"

datatype error = TypeError

text \<open>Truthiness, as \<^verbatim>\<open>if (v)\<close>, \<^verbatim>\<open>!v\<close>, \<^verbatim>\<open>a || b\<close> and \<^verbatim>\<open>c ? x : y\<close> test it.\<close>

fun truthy :: "jv \<Rightarrow> bool" where
  "truthy JUndefined = False"
| "truthy JNull = False"
| "truthy (JBool b) = b"
| "truthy (JNum n) = (n \<noteq> 0)"
| "truthy (JStr s) = (s \<noteq> [])"
| "truthy (JArr xs) = True"
| "truthy (JObj kvs) = True"

text \<open>\<^verbatim>\<open>a || b\<close> and \<^verbatim>\<open>a ?? b\<close> (both operands here are free of effects).\<close>

definition js_or :: "jv \<Rightarrow> jv \<Rightarrow> jv" where
  "js_or a b = (if truthy a then a else b)"

definition nullish :: "jv \<Rightarrow> bool" where
  "nullish v = (v = JUndefined \<or> v = JNull)"

definition js_qq :: "jv \<Rightarrow> jv \<Rightarrow> jv" where
  "js_qq a b = (if nullish a then b else a)"

text \<open>
  \<^verbatim>\<open>v.k\<close> on a value that is neither \<^verbatim>\<open>null\<close> nor \<^verbatim>\<open>undefined\<close>: the stored value, or
  \<^verbatim>\<open>undefined\<close> for a missing key and for a primitive.  \<^verbatim>\<open>v?.k\<close> also yields
  \<^verbatim>\<open>undefined\<close> for a nullish \<open>v\<close>, where \<^verbatim>\<open>v.k\<close> throws.
\<close>

definition get :: "jv \<Rightarrow> string \<Rightarrow> jv" where
  "get v k =
     (case v of
        JObj kvs \<Rightarrow> (case map_of kvs k of None \<Rightarrow> JUndefined | Some x \<Rightarrow> x)
      | other \<Rightarrow> JUndefined)"

definition opt_get :: "jv \<Rightarrow> string \<Rightarrow> jv" where
  "opt_get v k = (if nullish v then JUndefined else get v k)"

definition of_opt :: "string option \<Rightarrow> jv" where
  "of_opt r = (case r of None \<Rightarrow> JNull | Some s \<Rightarrow> JStr s)"

subsection \<open>\<^verbatim>\<open>String(v)\<close>\<close>

definition digit_char :: "nat \<Rightarrow> char" where
  "digit_char d = ''0123456789'' ! (d mod 10)"

fun show_nat :: "nat \<Rightarrow> string" where
  "show_nat n = (if n < 10 then [digit_char n] else show_nat (n div 10) @ [digit_char n])"

definition show_int :: "int \<Rightarrow> string" where
  "show_int i = (if i < 0 then CHR ''-'' # show_nat (nat (- i)) else show_nat (nat i))"

fun join_with :: "string \<Rightarrow> string list \<Rightarrow> string" where
  "join_with sep [] = []"
| "join_with sep [s] = s"
| "join_with sep (s # t # ss) = s @ sep @ join_with sep (t # ss)"

fun js_String :: "jv \<Rightarrow> string" where
  "js_String JUndefined = ''undefined''"
| "js_String JNull = ''null''"
| "js_String (JBool b) = (if b then ''true'' else ''false'')"
| "js_String (JNum n) = show_int n"
| "js_String (JStr s) = s"
| "js_String (JArr xs) =
     join_with '','' (map (\<lambda>x. if x = JUndefined \<or> x = JNull then [] else js_String x) xs)"
| "js_String (JObj kvs) = ''[object Object]''"

subsection \<open>String helpers\<close>

definition is_space :: "char \<Rightarrow> bool" where
  "is_space c = (c \<in> set [CHR '' '', CHR 0x09, CHR 0x0A, CHR 0x0B, CHR 0x0C, CHR 0x0D])"

definition is_digit :: "char \<Rightarrow> bool" where
  "is_digit c = (c \<in> set ''0123456789'')"

text \<open>\<^verbatim>\<open>s.toLowerCase()\<close> on the ASCII letters.\<close>

definition lower_char :: "char \<Rightarrow> char" where
  "lower_char c =
     (case List.find (\<lambda>(u, l). u = c)
        (zip ''ABCDEFGHIJKLMNOPQRSTUVWXYZ'' ''abcdefghijklmnopqrstuvwxyz'') of
        None \<Rightarrow> c | Some (u, l) \<Rightarrow> l)"

definition toLowerCase :: "string \<Rightarrow> string" where
  "toLowerCase s = map lower_char s"

text \<open>\<^verbatim>\<open>s.replace(/\s+/g, '-')\<close>: every maximal run of white space becomes one dash.\<close>

fun replace_ws_from :: "bool \<Rightarrow> string \<Rightarrow> string" where
  "replace_ws_from in_run [] = []"
| "replace_ws_from in_run (c # cs) =
     (if is_space c
      then (if in_run then replace_ws_from True cs else CHR ''-'' # replace_ws_from True cs)
      else c # replace_ws_from False cs)"

definition replace_ws :: "string \<Rightarrow> string" where
  "replace_ws s = replace_ws_from False s"

text \<open>\<^verbatim>\<open>s.trim()\<close>.\<close>

definition trim :: "string \<Rightarrow> string" where
  "trim s = rev (dropWhile is_space (rev (dropWhile is_space s)))"

section \<open>Run configuration\<close>

text \<open>
  The values \<^verbatim>\<open>main\<close> derives from the actor input and closes over.  \<open>toAbs href base\<close>
  is \<^verbatim>\<open>new URL(href, base).href\<close>, or \<^verbatim>\<open>null\<close> (here \<open>None\<close>) when the constructor
  throws; \<open>parseFloat\<close> is the platform's.  \<open>searchParams_has u k\<close> and
  \<open>searchParams_get u k\<close> are \<^verbatim>\<open>new URL(u).searchParams.has(k)\<close> and \<^verbatim>\<open>.get(k)\<close>, and
  \<open>searchParams_set u k v\<close> is the text of the URL \<open>u\<close> after \<^verbatim>\<open>searchParams.set(k, v)\<close>.
  All are parameters of the model.
\<close>

record env =
  toAbs :: "string \<Rightarrow> string \<Rightarrow> string option"
  parseFloat :: "string \<Rightarrow> jv"
  searchParams_has :: "string \<Rightarrow> string \<Rightarrow> bool"
  searchParams_get :: "string \<Rightarrow> string \<Rightarrow> string option"
  searchParams_set :: "string \<Rightarrow> string \<Rightarrow> string \<Rightarrow> string"
  base :: string
  category :: jv
  MAX_PRODUCTS :: nat
  MAX_PAGES :: nat
  collectDetails :: bool

section \<open>First revision: \<^verbatim>\<open>processApiProduct\<close>\<close>

text \<open>
  \<^verbatim>\<open>product.name?.toLowerCase().replace(/\s+/g, '-')\<close>: \<^verbatim>\<open>undefined\<close> for a nullish
  name, the slug for a string, and a \<^verbatim>\<open>TypeError\<close> for any other value (it has no
  \<^verbatim>\<open>toLowerCase\<close> method).
\<close>

definition name_slug :: "jv \<Rightarrow> error + jv" where
  "name_slug n =
     (if nullish n then Inr JUndefined
      else case n of JStr s \<Rightarrow> Inr (JStr (replace_ws (toLowerCase s))) | _ \<Rightarrow> Inl TypeError)"

text \<open>The \<^verbatim>\<open>url\<close> field of the record, the only field whose evaluation can throw.\<close>

definition api_url :: "env \<Rightarrow> jv \<Rightarrow> jv \<Rightarrow> error + jv" where
  "api_url E product productId =
     (if truthy (js_or (get product ''url'') (get product ''pipUrl''))
      then Inr (js_or (get product ''url'') (get product ''pipUrl''))
      else case name_slug (get product ''name'') of
             Inl e \<Rightarrow> Inl e
           | Inr slug \<Rightarrow>
               Inr (of_opt (toAbs E
                 (''/p/'' @ js_String slug @ ''-'' @ js_String productId @ ''/'') (base E))))"

text \<open>The object literal that \<^verbatim>\<open>processApiProduct\<close> returns, \<open>u\<close> being its \<^verbatim>\<open>url\<close>.\<close>

definition api_record :: "env \<Rightarrow> jv \<Rightarrow> jv \<Rightarrow> jv \<Rightarrow> jv" where
  "api_record E product productId u =
     JObj
       [(''productId'', JStr (js_String productId)),
        (''name'', js_or (js_or (js_or (get product ''name'') (get product ''title''))
                     (get product ''productName'')) JNull),
        (''price'', js_or (js_or (js_or (opt_get (get product ''price'') ''value'')
                     (get product ''priceNumeral'')) (get product ''price'')) JNull),
        (''currency'', js_or (js_or (opt_get (get product ''price'') ''currency'')
                     (get product ''currencyCode'')) (JStr ''GBP'')),
        (''image'', js_or (js_or (js_or (get product ''image'')
                     (get product ''mainImageUrl'')) (get product ''imageUrl'')) JNull),
        (''url'', u),
        (''rating'', js_or (js_or (get product ''rating'')
                     (get product ''averageRating'')) JNull),
        (''reviewCount'', js_or (js_or (get product ''reviewCount'')
                     (get product ''numberOfReviews'')) JNull),
        (''availability'',
           (if truthy (js_or (get product ''availability'')
                             (get product ''availableForClickAndCollect''))
            then JStr ''Available'' else JStr ''Check availability'')),
        (''category'', js_or (category E) JNull)]"

text \<open>
  \<^verbatim>\<open>processApiProduct(product)\<close> reads and updates the set \<^verbatim>\<open>seenProducts\<close>; the model
  returns the result (the record, \<^verbatim>\<open>null\<close>, or the exception thrown) with the new set.
  The id is added before the object literal is evaluated, so it stays added when the
  \<^verbatim>\<open>url\<close> field throws.
\<close>

definition processApiProduct :: "env \<Rightarrow> string set \<Rightarrow> jv \<Rightarrow> (error + jv) \<times> string set" where
  "processApiProduct E seen product =
     (if nullish product then (Inl TypeError, seen)
      else
        let productId = js_or (js_or (get product ''id'') (get product ''productId''))
                              (get product ''itemNo'')
        in if \<not> truthy productId \<or> js_String productId \<in> seen
           then (Inr JNull, seen)
           else
             (case api_url E product productId of
                Inl e \<Rightarrow> (Inl e, insert (js_String productId) seen)
              | Inr u \<Rightarrow> (Inr (api_record E product productId u),
                           insert (js_String productId) seen)))"

section \<open>Second revision: product identity from a URL\<close>

text \<open>\<^verbatim>\<open>s.includes(pat)\<close>.\<close>

fun str_includes :: "string \<Rightarrow> string \<Rightarrow> bool" where
  "str_includes [] pat = (pat = [])"
| "str_includes (c # cs) pat = (take (length pat) (c # cs) = pat \<or> str_includes cs pat)"

text \<open>
  \<^verbatim>\<open>url.match(/\/p\/[^/]+-(\d+)\/?/)?.[1]\<close>.  After a \<^verbatim>\<open>/p/\<close> marker the greedy
  \<^verbatim>\<open>[^/]+\<close> stays inside the path segment and backtracks to the last dash of the segment
  (not its first character) that a digit follows; the group is the maximal run of digits
  after that dash.  When a marker's segment has no such dash the search goes on at the
  next position.
\<close>

fun last_dash_digits :: "string \<Rightarrow> string option \<Rightarrow> string option" where
  "last_dash_digits [] found = found"
| "last_dash_digits (c # cs) found =
     last_dash_digits cs
       (if c = CHR ''-'' \<and> (case cs of [] \<Rightarrow> False | d # ds \<Rightarrow> is_digit d)
        then Some (takeWhile is_digit cs) else found)"

definition segment_id :: "string \<Rightarrow> string option" where
  "segment_id rest =
     (case takeWhile (\<lambda>c. c \<noteq> CHR ''/'') rest of
        [] \<Rightarrow> None
      | c # cs \<Rightarrow> last_dash_digits cs None)"

fun match_pid :: "string \<Rightarrow> string option" where
  "match_pid [] = None"
| "match_pid (c # cs) =
     (if take 3 (c # cs) = ''/p/''
      then (case segment_id (drop 3 (c # cs)) of
              Some d \<Rightarrow> Some d
            | None \<Rightarrow> match_pid cs)
      else match_pid cs)"

section \<open>Second revision: \<^verbatim>\<open>extractProductsFromHtml\<close>\<close>

text \<open>
  What the extractor reads of one product-card element: for each link selector the
  \<^verbatim>\<open>href\<close> and \<^verbatim>\<open>aria-label\<close> of the first matching element (\<open>None\<close> for a missing
  attribute or no match), for each name selector the trimmed text of the first match, the
  element's text, for each image selector the \<^verbatim>\<open>src\<close>, \<^verbatim>\<open>data-src\<close> and
  \<^verbatim>\<open>data-lazy-src\<close> attributes, and the values the rating and review-count patterns give
  on the text.  The page \<^verbatim>\<open>$\<close> is the list, per candidate card selector, of the elements
  that match it.
\<close>

record card =
  c_links :: "(string option \<times> string option) list"
  c_name_texts :: "string list"
  c_text :: string
  c_images :: "(string option \<times> string option \<times> string option) list"
  c_rating :: jv
  c_reviewCount :: jv

type_synonym dom = "card list list"

text \<open>The link loop: the first link whose \<^verbatim>\<open>href\<close> is non-empty and includes \<^verbatim>\<open>/p/\<close>.\<close>

fun find_link :: "(string option \<times> string option) list
    \<Rightarrow> (string \<times> string option) option" where
  "find_link [] = None"
| "find_link ((href, aria) # ls) =
     (case href of
        Some h \<Rightarrow> if h \<noteq> [] \<and> str_includes h ''/p/'' then Some (h, aria) else find_link ls
      | None \<Rightarrow> find_link ls)"

text \<open>\<^verbatim>\<open>label.replace(/^New\s+/i, '')\<close>.\<close>

definition strip_new :: "string \<Rightarrow> string" where
  "strip_new s =
     (if toLowerCase (take 3 s) = ''new''
         \<and> (case drop 3 s of [] \<Rightarrow> False | c # cs \<Rightarrow> is_space c)
      then dropWhile is_space (drop 3 s) else s)"

definition card_name :: "string list \<Rightarrow> string option \<Rightarrow> jv" where
  "card_name texts aria =
     (case List.find (\<lambda>t. t \<noteq> []) texts of
        Some t \<Rightarrow> JStr t
      | None \<Rightarrow> (case aria of None \<Rightarrow> JUndefined | Some l \<Rightarrow> JStr (trim (strip_new l))))"

text \<open>Group 1 of \<^verbatim>\<open>/(\d+(?:\.\d{1,2})?)/\<close> at its first match.\<close>

definition price_match :: "string \<Rightarrow> string option" where
  "price_match s =
     (let t = dropWhile (\<lambda>c. \<not> is_digit c) s in
      if t = [] then None
      else
        let ds = takeWhile is_digit t in
        (case dropWhile is_digit t of
           d # f # fs \<Rightarrow>
             if d = CHR ''.'' \<and> is_digit f
             then Some (ds @ [d, f] @ (case fs of [] \<Rightarrow> [] | g # gs \<Rightarrow> if is_digit g then [g] else []))
             else Some ds
         | _ \<Rightarrow> Some ds))"

definition card_price :: "env \<Rightarrow> string \<Rightarrow> jv" where
  "card_price E text =
     (case price_match (filter (\<lambda>c. c \<noteq> CHR '','') text) of
        None \<Rightarrow> JNull
      | Some m \<Rightarrow> parseFloat E m)"

text \<open>
  The image loop assigns \<^verbatim>\<open>image\<close> at every selector and breaks at the first value that is
  truthy and names neither a spacer nor a placeholder; without a break the last
  assignment stays.
\<close>

definition attr_val :: "string option \<Rightarrow> jv" where
  "attr_val a = (case a of None \<Rightarrow> JUndefined | Some s \<Rightarrow> JStr s)"

fun card_image :: "jv \<Rightarrow> (string option \<times> string option \<times> string option) list \<Rightarrow> jv" where
  "card_image img [] = img"
| "card_image img ((src, data_src, lazy_src) # sels) =
     (let img' = js_or (js_or (attr_val src) (attr_val data_src)) (attr_val lazy_src) in
      if truthy img' \<and> \<not> str_includes (js_String img') ''spacer''
         \<and> \<not> str_includes (js_String img') ''placeholder''
      then img' else card_image img' sels)"

definition card_product :: "env \<Rightarrow> card \<Rightarrow> string \<Rightarrow> string \<Rightarrow> string option \<Rightarrow> jv" where
  "card_product E c productId productUrl aria =
     JObj
       [(''productId'', JStr productId),
        (''name'', card_name (c_name_texts c) aria),
        (''price'', card_price E (c_text c)),
        (''currency'', JNull),
        (''image'', card_image JNull (c_images c)),
        (''url'', JStr productUrl),
        (''rating'', c_rating c),
        (''reviewCount'', c_reviewCount c),
        (''availability'', JStr ''Available'')]"

text \<open>
  The link loop with the test \<^verbatim>\<open>if (!productUrl) continue\<close>: the absolute URL of the
  card's product link and the link's \<^verbatim>\<open>aria-label\<close>, or \<open>None\<close> when the card is skipped.
\<close>

definition card_url :: "env \<Rightarrow> card \<Rightarrow> (string \<times> string option) option" where
  "card_url E c =
     (case find_link (c_links c) of
        None \<Rightarrow> None
      | Some (href, aria) \<Rightarrow>
          (case toAbs E href (base E) of
             None \<Rightarrow> None
           | Some productUrl \<Rightarrow> if productUrl = [] then None else Some (productUrl, aria)))"

text \<open>
  One iteration of the loop over the product elements: the products array and
  \<^verbatim>\<open>seenProducts\<close> after it.  A \<^verbatim>\<open>continue\<close> leaves both as they are; the id is added
  to the set before the name and the price are looked at.
\<close>

definition extract_card :: "env \<Rightarrow> card \<Rightarrow> jv list \<times> string set \<Rightarrow> jv list \<times> string set" where
  "extract_card E c st =
     (case st of (products, seen) \<Rightarrow>
      (case card_url E c of
         None \<Rightarrow> (products, seen)
       | Some (productUrl, aria) \<Rightarrow>
          (case match_pid productUrl of
             None \<Rightarrow> (products, seen)
           | Some productId \<Rightarrow>
              if productId \<in> seen then (products, seen)
              else
                let product = card_product E c productId productUrl aria in
                if truthy (get product ''name'') \<and> truthy (get product ''price'')
                then (products @ [product], insert productId seen)
                else (products, insert productId seen))))"

fun extract_cards :: "env \<Rightarrow> card list \<Rightarrow> jv list \<times> string set \<Rightarrow> jv list \<times> string set" where
  "extract_cards E [] st = st"
| "extract_cards E (c # cs) st = extract_cards E cs (extract_card E c st)"

text \<open>The first candidate selector with a match gives the product elements.\<close>

definition productElements :: "dom \<Rightarrow> card list" where
  "productElements d = (case List.find (\<lambda>els. els \<noteq> []) d of None \<Rightarrow> [] | Some els \<Rightarrow> els)"

definition extractProductsFromHtml :: "env \<Rightarrow> string set \<Rightarrow> dom \<Rightarrow> jv list \<times> string set" where
  "extractProductsFromHtml E seen d = extract_cards E (productElements d) ([], seen)"

section \<open>Second revision: records from structured payloads\<close>

text \<open>\<^verbatim>\<open>xs.join(sep)\<close>: \<^verbatim>\<open>null\<close> and \<^verbatim>\<open>undefined\<close> elements give the empty string.\<close>

definition js_join :: "string \<Rightarrow> jv list \<Rightarrow> string" where
  "js_join sep xs = join_with sep (map (\<lambda>x. if x = JUndefined \<or> x = JNull then [] else js_String x) xs)"

text \<open>
  \<^verbatim>\<open>processJsonLdProduct(product)\<close>, with \<^verbatim>\<open>seenProducts\<close> passed through as for
  \<^verbatim>\<open>processApiProduct\<close>.  Only the first property access can throw.
\<close>

definition jsonld_id :: "jv \<Rightarrow> jv" where
  "jsonld_id product =
     js_or (js_or (js_or (get product ''id'') (get product ''productId''))
                  (opt_get (get product ''item'') ''sku''))
           (opt_get (get product ''item'') ''productID'')"

definition jsonld_record :: "env \<Rightarrow> jv \<Rightarrow> jv \<Rightarrow> jv" where
  "jsonld_record E product productId =
     (let price = js_or (opt_get (get product ''offers'') ''price'') (get product ''price'');
          currency = js_or (opt_get (get product ''offers'') ''priceCurrency'')
                           (get product ''currency'')
      in JObj
       [(''productId'', JStr (js_String productId)),
        (''name'', js_or (js_or (get product ''name'') (opt_get (get product ''item'') ''name''))
                     JNull),
        (''price'', if truthy price
                    then parseFloat E (filter (\<lambda>c. c \<noteq> CHR '','') (js_String price))
                    else JNull),
        (''currency'', js_or currency JNull),
        (''image'', case get product ''image'' of
                      JArr xs \<Rightarrow> (case xs of [] \<Rightarrow> JUndefined | x # rest \<Rightarrow> x)
                    | v \<Rightarrow> v),
        (''url'', if truthy (get product ''url'')
                  then of_opt (toAbs E (js_String (get product ''url'')) (base E))
                  else JNull),
        (''rating'', js_or (opt_get (get product ''aggregateRating'') ''ratingValue'') JNull),
        (''reviewCount'', js_or (opt_get (get product ''aggregateRating'') ''reviewCount'') JNull),
        (''availability'', js_or (opt_get (get product ''offers'') ''availability'')
                             (JStr ''Check availability'')),
        (''category'', js_or (category E) JNull)])"

definition processJsonLdProduct :: "env \<Rightarrow> string set \<Rightarrow> jv \<Rightarrow> (error + jv) \<times> string set" where
  "processJsonLdProduct E seen product =
     (if nullish product then (Inl TypeError, seen)
      else
        if \<not> truthy (jsonld_id product) \<or> js_String (jsonld_id product) \<in> seen
        then (Inr JNull, seen)
        else (Inr (jsonld_record E product (jsonld_id product)),
              insert (js_String (jsonld_id product)) seen))"

text \<open>
  \<^verbatim>\<open>mapSikProduct(product)\<close>.  The image is
  \<^verbatim>\<open>product.mainImageUrl || product.allProductImage?.find((img) => img.url)?.url || null\<close>:
  \<^verbatim>\<open>find\<close> exists on arrays only, and its callback throws on a nullish element.
\<close>

fun find_img :: "jv list \<Rightarrow> error + jv" where
  "find_img [] = Inr JUndefined"
| "find_img (x # xs) =
     (if nullish x then Inl TypeError
      else if truthy (get x ''url'') then Inr x else find_img xs)"

definition sik_image :: "jv \<Rightarrow> error + jv" where
  "sik_image product =
     (if truthy (get product ''mainImageUrl'') then Inr (get product ''mainImageUrl'')
      else if nullish (get product ''allProductImage'') then Inr JNull
      else case get product ''allProductImage'' of
             JArr xs \<Rightarrow>
               (case find_img xs of
                  Inl e \<Rightarrow> Inl e
                | Inr img \<Rightarrow> Inr (js_or (opt_get img ''url'') JNull))
           | v \<Rightarrow> Inl TypeError)"

definition sik_id :: "jv \<Rightarrow> string" where
  "sik_id product =
     trim (js_String
       (js_or (js_or (js_or (js_or (get product ''itemNo'') (get product ''itemNoGlobal''))
                            (get product ''id''))
                     (get product ''productNumber''))
              (JStr [])))"

definition sik_name :: "jv \<Rightarrow> jv" where
  "sik_name product =
     (let nameParts = filter truthy [get product ''name'', get product ''typeName''] in
      if nameParts \<noteq> [] then JStr (trim (js_join '' '' nameParts)) else get product ''name'')"

definition sik_availability :: "jv \<Rightarrow> jv" where
  "sik_availability product =
     (case get product ''availability'' of
        JArr xs \<Rightarrow> if xs \<noteq> [] then JStr (js_join '', '' xs) else JStr ''Check availability''
      | v \<Rightarrow> JStr ''Check availability'')"

definition sik_record :: "env \<Rightarrow> jv \<Rightarrow> string \<Rightarrow> jv \<Rightarrow> jv" where
  "sik_record E product productId img =
     JObj
       [(''productId'', JStr productId),
        (''name'', js_or (js_or (sik_name product) (get product ''productName'')) JNull),
        (''price'', js_qq (js_qq (opt_get (get product ''salesPrice'') ''numeral'')
                                 (get product ''priceNumeral'')) JNull),
        (''currency'', js_or (js_or (opt_get (get product ''salesPrice'') ''currencyCode'')
                                    (get product ''currencyCode'')) JNull),
        (''image'', img),
        (''url'', if truthy (get product ''pipUrl'')
                  then of_opt (toAbs E (js_String (get product ''pipUrl'')) (base E))
                  else JNull),
        (''rating'', js_qq (js_qq (get product ''ratingValue'') (get product ''averageRating''))
                           JNull),
        (''reviewCount'', js_qq (js_qq (get product ''ratingCount'')
                                       (get product ''numberOfReviews'')) JNull),
        (''availability'', sik_availability product),
        (''category'', js_or (category E) JNull)]"

definition mapSikProduct :: "env \<Rightarrow> string set \<Rightarrow> jv \<Rightarrow> (error + jv) \<times> string set" where
  "mapSikProduct E seen product =
     (if nullish product then (Inl TypeError, seen)
      else
        if sik_id product = [] \<or> sik_id product \<in> seen then (Inr JNull, seen)
        else
          (case sik_image product of
             Inl e \<Rightarrow> (Inl e, insert (sik_id product) seen)
           | Inr img \<Rightarrow> (Inr (sik_record E product (sik_id product) img),
                          insert (sik_id product) seen)))"

section \<open>Second revision: \<^verbatim>\<open>extractProductDetails\<close>\<close>

text \<open>
  What the extractor reads of a product page: the trimmed texts of the name and
  description selectors, the matches of the price, measurement, type and availability
  patterns on the body text (the group the code uses, \<open>None\<close> without a match), the
  \<^verbatim>\<open>src\<close> and \<^verbatim>\<open>data-src\<close> of the images of each image selector, the rating and the review
  count computed from the body text (\<^verbatim>\<open>null\<close> without a match), and the trimmed texts of
  the \<^verbatim>\<open>li\<close>, \<^verbatim>\<open>span\<close> and \<^verbatim>\<open>p\<close> elements.
\<close>

record detail_page =
  d_name_texts :: "string list"
  d_price_match :: "string option"
  d_desc_texts :: "string list"
  d_measure_match :: "string option"
  d_image_srcs :: "(string option \<times> string option) list list"
  d_rating :: jv
  d_reviewCount :: jv
  d_feature_texts :: "string list"
  d_type_match :: "string option"
  d_avail_match :: "string option"

fun collect_images :: "string list \<Rightarrow> (string option \<times> string option) list \<Rightarrow> string list" where
  "collect_images images [] = images"
| "collect_images images ((src, data_src) # imgs) =
     (case js_or (attr_val src) (attr_val data_src) of
        JStr s \<Rightarrow>
          collect_images
            (if s \<noteq> [] \<and> \<not> str_includes s ''spacer'' \<and> \<not> str_includes s ''placeholder''
                \<and> \<not> str_includes s ''favicon'' \<and> s \<notin> set images \<and> str_includes s ''products''
             then images @ [s] else images) imgs
      | v \<Rightarrow> collect_images images imgs)"

fun detail_images :: "(string option \<times> string option) list list \<Rightarrow> string list" where
  "detail_images [] = []"
| "detail_images (sel # sels) =
     (if collect_images [] sel \<noteq> [] then collect_images [] sel else detail_images sels)"

fun collect_features :: "string list \<Rightarrow> string list \<Rightarrow> string list" where
  "collect_features features [] = features"
| "collect_features features (t # ts) =
     collect_features
       (if t \<noteq> [] \<and> 10 < length t \<and> length t < 200 \<and> \<not> is_digit (hd t)
           \<and> t \<notin> set features \<and> length features < 10
        then features @ [t] else features) ts"

definition cleanedFeatures :: "string list \<Rightarrow> string list" where
  "cleanedFeatures texts =
     take 5 (filter (\<lambda>f. 10 < length f
                       \<and> \<not> (str_includes (toLowerCase f) ''add to''
                            \<or> str_includes (toLowerCase f) ''select''
                            \<or> str_includes (toLowerCase f) ''choose''))
               (collect_features [] texts))"

definition opt_field :: "string \<Rightarrow> string option \<Rightarrow> (string \<times> jv) list" where
  "opt_field k r = (case r of None \<Rightarrow> [] | Some s \<Rightarrow> [(k, JStr s)])"

text \<open>
  The object \<^verbatim>\<open>data\<close>.  The keys \<^verbatim>\<open>name\<close>, \<^verbatim>\<open>description\<close>, \<^verbatim>\<open>measurements\<close> and
  \<^verbatim>\<open>type\<close> are assigned only when something is found; \<^verbatim>\<open>productId\<close>, \<^verbatim>\<open>price\<close>,
  \<^verbatim>\<open>images\<close>, \<^verbatim>\<open>rating\<close>, \<^verbatim>\<open>reviewCount\<close>, \<^verbatim>\<open>features\<close> and \<^verbatim>\<open>availability\<close> are
  always assigned, with \<^verbatim>\<open>null\<close> when nothing is found.
\<close>

definition detail_data :: "env \<Rightarrow> string \<Rightarrow> detail_page \<Rightarrow> (string \<times> jv) list" where
  "detail_data E url pg =
     opt_field ''name'' (List.find (\<lambda>t. t \<noteq> [] \<and> 3 < length t) (d_name_texts pg))
     @ [(''productId'', js_or (of_opt (match_pid url)) JNull),
        (''price'', case d_price_match pg of None \<Rightarrow> JNull | Some m \<Rightarrow> parseFloat E m)]
     @ opt_field ''description'' (List.find (\<lambda>t. t \<noteq> [] \<and> 20 < length t) (d_desc_texts pg))
     @ opt_field ''measurements'' (map_option trim (d_measure_match pg))
     @ [(''images'', if detail_images (d_image_srcs pg) \<noteq> []
                     then JArr (map JStr (detail_images (d_image_srcs pg))) else JNull),
        (''rating'', d_rating pg),
        (''reviewCount'', d_reviewCount pg),
        (''features'', if cleanedFeatures (d_feature_texts pg) \<noteq> []
                       then JArr (map JStr (cleanedFeatures (d_feature_texts pg))) else JNull)]
     @ opt_field ''type'' (map_option trim (d_type_match pg))
     @ [(''availability'', case d_avail_match pg of
                             None \<Rightarrow> JStr ''Check availability''
                           | Some a \<Rightarrow> JStr (trim a))]"

text \<open>
  \<^verbatim>\<open>extractProductDetails(url, $)\<close>.  A page that cannot be queried (\<open>None\<close>) makes the
  first selector call throw; the \<^verbatim>\<open>catch\<close> returns \<^verbatim>\<open>null\<close>.
\<close>

definition extractProductDetails :: "env \<Rightarrow> string \<Rightarrow> detail_page option \<Rightarrow> jv" where
  "extractProductDetails E url page =
     (case page of None \<Rightarrow> JNull | Some pg \<Rightarrow> JObj (detail_data E url pg))"

section \<open>Objects built by the handlers\<close>

text \<open>
  Assignment to a key keeps the key's place when it exists and appends it otherwise.
  \<^verbatim>\<open>{...a, ...b}\<close> assigns the own properties of \<open>a\<close>, then those of \<open>b\<close>, to a fresh
  object; spreading \<^verbatim>\<open>null\<close> or \<^verbatim>\<open>undefined\<close> assigns nothing.  (The values spread below
  are records built by the code above, or \<^verbatim>\<open>null\<close>.)
\<close>

fun set_prop :: "string \<Rightarrow> jv \<Rightarrow> (string \<times> jv) list \<Rightarrow> (string \<times> jv) list" where
  "set_prop k v [] = [(k, v)]"
| "set_prop k v ((k', v') # kvs) =
     (if k' = k then (k, v) # kvs else (k', v') # set_prop k v kvs)"

fun own_props :: "jv \<Rightarrow> (string \<times> jv) list" where
  "own_props (JObj kvs) = kvs"
| "own_props v = []"

definition spread :: "(string \<times> jv) list \<Rightarrow> jv \<Rightarrow> (string \<times> jv) list" where
  "spread target v = foldl (\<lambda>acc (k, x). set_prop k x acc) target (own_props v)"

section \<open>Requests and the state of a run\<close>

datatype label = LIST | DETAIL

text \<open>
  A request with its \<^verbatim>\<open>userData\<close>.  \<open>req_pageNo = 0\<close> stands for a missing page number
  (\<^verbatim>\<open>request.userData?.pageNo || 1\<close> reads both as 1), \<open>req_baseData = JUndefined\<close> for
  missing base data.
\<close>

record request =
  req_url :: string
  req_label :: label
  req_pageNo :: nat
  req_baseData :: jv

text \<open>
  The variables \<^verbatim>\<open>saved\<close>, \<^verbatim>\<open>seenProducts\<close> and \<^verbatim>\<open>detailRequests\<close> of \<^verbatim>\<open>main\<close>, the
  records handed to \<^verbatim>\<open>Dataset.pushData\<close>, the requests handed to \<^verbatim>\<open>enqueueLinks\<close>, and
  the lines written with \<^verbatim>\<open>log.error\<close>.
\<close>

record run_state =
  saved :: nat
  seenProducts :: "string set"
  dataset :: "jv list"
  requestQueue :: "request list"
  detailRequests :: "request list"
  errorLog :: "string list"

definition initial_state :: run_state where
  "initial_state = \<lparr>saved = 0, seenProducts = {}, dataset = [], requestQueue = [],
                     detailRequests = [], errorLog = []\<rparr>"

section \<open>Second revision: the listing handler of \<^verbatim>\<open>runHtmlCrawler\<close>\<close>

datatype strategy = StructuredApi | EmbeddedJson | DomHeuristic

text \<open>
  What a listing page gives: the \<^verbatim>\<open>products\<close> that \<^verbatim>\<open>tryEmbeddedJson\<close> returns (\<open>None\<close>
  for \<^verbatim>\<open>null\<close>), the parsed document \<^verbatim>\<open>$\<close> (\<open>None\<close> when there is none), and for each
  next-page selector the \<^verbatim>\<open>href\<close>, \<^verbatim>\<open>disabled\<close> and \<^verbatim>\<open>aria-disabled\<close> attributes of its
  first match (\<open>None\<close> when nothing matches).
\<close>

record list_page =
  json_products :: "jv list option"
  page_dom :: "dom option"
  next_links :: "(string option \<times> string option \<times> string option) option list"

text \<open>
  The loop \<^verbatim>\<open>for (const p of products) { if (saved >= MAX_PRODUCTS) break; const product =
  process(p); if (product) productsFound.push(product); }\<close>; an exception of \<open>process\<close>
  leaves the handler.
\<close>

fun process_products ::
  "(string set \<Rightarrow> jv \<Rightarrow> (error + jv) \<times> string set) \<Rightarrow> nat \<Rightarrow> nat \<Rightarrow> jv list
     \<Rightarrow> jv list \<times> string set \<Rightarrow> error option \<times> jv list \<times> string set" where
  "process_products process maxp savedp [] (found, seen) = (None, found, seen)"
| "process_products process maxp savedp (p # ps) (found, seen) =
     (if maxp \<le> savedp then (None, found, seen)
      else case process seen p of
             (Inl e, seen') \<Rightarrow> (Some e, found, seen')
           | (Inr product, seen') \<Rightarrow>
               process_products process maxp savedp ps
                 (if truthy product then found @ [product] else found, seen'))"

text \<open>
  The extraction chain of the handler: the strategies invoked, in order, the error that
  left the handler (if any), \<^verbatim>\<open>productsFound\<close> and \<^verbatim>\<open>seenProducts\<close>.
\<close>

definition html_chain ::
  "env \<Rightarrow> list_page \<Rightarrow> nat \<Rightarrow> string set
     \<Rightarrow> strategy list \<times> error option \<times> jv list \<times> string set" where
  "html_chain E pg savedp seen =
     (case (case json_products pg of
              None \<Rightarrow> (None, [], seen)
            | Some ps \<Rightarrow> process_products (processJsonLdProduct E) (MAX_PRODUCTS E) savedp ps
                          ([], seen)) of
        (Some e, found, seen1) \<Rightarrow> ([EmbeddedJson], Some e, found, seen1)
      | (None, found, seen1) \<Rightarrow>
          if found = [] then
            (case page_dom pg of
               None \<Rightarrow> ([EmbeddedJson], None, [], seen1)
             | Some d \<Rightarrow>
                 (case extractProductsFromHtml E seen1 d of
                    (found2, seen2) \<Rightarrow> ([EmbeddedJson, DomHeuristic], None, found2, seen2)))
          else ([EmbeddedJson], None, found, seen1))"

text \<open>\<^verbatim>\<open>Dataset.pushData(record); saved++\<close>.\<close>

definition push_record :: "jv \<Rightarrow> run_state \<Rightarrow> run_state" where
  "push_record r st = st\<lparr>dataset := dataset st @ [r], saved := saved st + 1\<rparr>"

definition enqueue :: "request \<Rightarrow> run_state \<Rightarrow> run_state" where
  "enqueue r st = st\<lparr>requestQueue := requestQueue st @ [r]\<rparr>"

text \<open>The record \<^verbatim>\<open>{ ...product, category: category || null }\<close> of basic mode.\<close>

definition basic_record :: "env \<Rightarrow> jv \<Rightarrow> jv" where
  "basic_record E product = JObj (set_prop ''category'' (js_or (category E) JNull) (spread [] product))"

text \<open>The loop over \<^verbatim>\<open>productsFound\<close>: a detail request or a record for each product.\<close>

fun emit_products :: "env \<Rightarrow> jv list \<Rightarrow> run_state \<Rightarrow> run_state" where
  "emit_products E [] st = st"
| "emit_products E (product # ps) st =
     (if MAX_PRODUCTS E \<le> saved st then st
      else emit_products E ps
        (if collectDetails E \<and> truthy (get product ''url'')
         then enqueue \<lparr>req_url = js_String (get product ''url''), req_label = DETAIL,
                        req_pageNo = 0, req_baseData = product\<rparr> st
         else push_record (basic_record E product) st))"

text \<open>\<^verbatim>\<open>parseInt(s, 10)\<close>; \<open>None\<close> is \<^verbatim>\<open>NaN\<close>.\<close>

definition digits_value :: "string \<Rightarrow> int" where
  "digits_value ds = foldl (\<lambda>a c. 10 * a + int (of_char c - 48)) 0 ds"

definition parseInt10 :: "string \<Rightarrow> int option" where
  "parseInt10 s =
     (let t = dropWhile is_space s;
          neg = (t \<noteq> [] \<and> hd t = CHR ''-'');
          u = (if t \<noteq> [] \<and> (hd t = CHR ''-'' \<or> hd t = CHR ''+'') then tl t else t);
          ds = takeWhile is_digit u
      in if ds = [] then None else Some (if neg then - digits_value ds else digits_value ds))"

text \<open>
  \<^verbatim>\<open>findNextPage($, currentUrl, pageNo)\<close>: the first next-page element that has an
  \<^verbatim>\<open>href\<close> and is not disabled decides; otherwise the \<^verbatim>\<open>page\<close> or \<^verbatim>\<open>offset\<close> parameter
  of the current URL is advanced.  (The source's last test, \<^verbatim>\<open>if (pageNo === 1)\<close>, is never
  reached: the first one covers it.)
\<close>

fun explicit_next :: "(string option \<times> string option \<times> string option) option list
    \<Rightarrow> string option" where
  "explicit_next [] = None"
| "explicit_next (None # sels) = explicit_next sels"
| "explicit_next (Some (href, disabled, aria_disabled) # sels) =
     (if truthy (attr_val href)
         \<and> \<not> (truthy (attr_val disabled) \<or> aria_disabled = Some ''true'')
      then href else explicit_next sels)"

definition findNextPage ::
  "env \<Rightarrow> (string option \<times> string option \<times> string option) option list \<Rightarrow> string \<Rightarrow> nat
     \<Rightarrow> string option" where
  "findNextPage E links currentUrl pageNo =
     (case explicit_next links of
        Some href \<Rightarrow> toAbs E href currentUrl
      | None \<Rightarrow>
          if searchParams_has E currentUrl ''page'' \<or> pageNo = 1
          then Some (searchParams_set E currentUrl ''page'' (show_nat (pageNo + 1)))
          else if searchParams_has E currentUrl ''offset''
          then Some (searchParams_set E currentUrl ''offset''
                 (case parseInt10
                         (js_String (js_or (attr_val (searchParams_get E currentUrl ''offset''))
                                           (JStr ''0''))) of
                    None \<Rightarrow> ''NaN''
                  | Some offset \<Rightarrow> show_int (offset + 24)))
          else None)"

text \<open>The pagination step that ends the listing branch.\<close>

definition paginate :: "env \<Rightarrow> list_page \<Rightarrow> request \<Rightarrow> nat \<Rightarrow> jv list \<Rightarrow> run_state \<Rightarrow> run_state" where
  "paginate E pg request pageNo productsFound st =
     (if saved st < MAX_PRODUCTS E \<and> pageNo < MAX_PAGES E \<and> productsFound \<noteq> []
      then (case findNextPage E (next_links pg) (req_url request) pageNo of
              None \<Rightarrow> st
            | Some nextUrl \<Rightarrow>
                if nextUrl \<noteq> [] \<and> nextUrl \<noteq> req_url request
                then enqueue \<lparr>req_url = nextUrl, req_label = LIST, req_pageNo = pageNo + 1,
                               req_baseData = JUndefined\<rparr> st
                else st)
      else st)"

definition page_number :: "request \<Rightarrow> nat" where
  "page_number request = (if req_pageNo request = 0 then 1 else req_pageNo request)"

text \<open>
  The \<^verbatim>\<open>LIST\<close> branch of the handler, run without interruption.  An exception leaves the
  handler with the ids claimed so far.
\<close>

definition runHtmlCrawler_LIST :: "env \<Rightarrow> list_page \<Rightarrow> request \<Rightarrow> run_state \<Rightarrow> error option \<times> run_state" where
  "runHtmlCrawler_LIST E pg request st =
     (case html_chain E pg (saved st) (seenProducts st) of
        (tr, Some e, found, seen') \<Rightarrow> (Some e, st\<lparr>seenProducts := seen'\<rparr>)
      | (tr, None, found, seen') \<Rightarrow>
          (None, paginate E pg request (page_number request) found
                   (emit_products E found (st\<lparr>seenProducts := seen'\<rparr>))))"

section \<open>Second revision: the detail handlers\<close>

text \<open>
  \<^verbatim>\<open>{ ...baseData, ...details, url: request.url, category: c, scrapedAt: now }\<close> with
  \<^verbatim>\<open>baseData = request.userData?.baseData || {}\<close>.
\<close>

definition merge_detail :: "jv \<Rightarrow> jv \<Rightarrow> string \<Rightarrow> jv \<Rightarrow> string \<Rightarrow> jv" where
  "merge_detail baseData details url c now =
     JObj (set_prop ''scrapedAt'' (JStr now)
            (set_prop ''category'' c
              (set_prop ''url'' (JStr url)
                (spread (spread [] baseData) details))))"

text \<open>The \<^verbatim>\<open>DETAIL\<close> branch of the handler of \<^verbatim>\<open>runHtmlCrawler\<close>, run without interruption.\<close>

definition runHtmlCrawler_DETAIL :: "env \<Rightarrow> string \<Rightarrow> detail_page option \<Rightarrow> request \<Rightarrow> run_state \<Rightarrow> run_state" where
  "runHtmlCrawler_DETAIL E now page request st =
     (if MAX_PRODUCTS E \<le> saved st then st
      else push_record
             (merge_detail (js_or (req_baseData request) (JObj []))
                (extractProductDetails E (req_url request) page)
                (req_url request) (js_or (category E) JNull) now)
             st)"

text \<open>The handler of \<^verbatim>\<open>runDetailCrawler\<close>; it falls back on the category of the base data.\<close>

definition runDetailCrawler_requestHandler :: "env \<Rightarrow> string \<Rightarrow> detail_page option \<Rightarrow> request \<Rightarrow> run_state \<Rightarrow> run_state" where
  "runDetailCrawler_requestHandler E now page request st =
     (if MAX_PRODUCTS E \<le> saved st then st
      else push_record
             (merge_detail (js_or (req_baseData request) (JObj []))
                (extractProductDetails E (req_url request) page)
                (req_url request)
                (js_or (js_or (category E)
                              (get (js_or (req_baseData request) (JObj [])) ''category''))
                       JNull)
                now)
             st)"




section \<open>Second revision: the item loop of \<^verbatim>\<open>fetchViaSik\<close>\<close>


section \<open>First revision: the extraction chain of the listing handler\<close>

text \<open>
  What a listing page gives in the first revision: the result of \<^verbatim>\<open>tryInternalApi\<close>, the
  \<^verbatim>\<open>products\<close> and the \<^verbatim>\<open>html\<close> (loaded into a document) that \<^verbatim>\<open>tryEmbeddedJson\<close>
  returns, and the crawler's document \<^verbatim>\<open>$\<close>.  The chain calls the first revision's
  \<^verbatim>\<open>extractProductsFromHtml\<close>, taken here as the parameter \<open>extractHtml\<close>: how cards are
  read does not enter the control flow.
\<close>

record list_page_v1 =
  api_products :: "jv list option"
  embedded_products :: "jv list option"
  embedded_html :: "dom option"
  current_dom :: "dom option"

text \<open>Priority 1: \<^verbatim>\<open>tryInternalApi\<close> and the loop over its products.\<close>

definition api_stage :: "env \<Rightarrow> list_page_v1 \<Rightarrow> nat \<Rightarrow> string set \<Rightarrow> error option \<times> jv list \<times> string set" where
  "api_stage E pg savedp seen =
     (case api_products pg of
        None \<Rightarrow> (None, [], seen)
      | Some ps \<Rightarrow> process_products (processApiProduct E) (MAX_PRODUCTS E) savedp ps ([], seen))"

text \<open>
  Priority 2, entered with an empty \<^verbatim>\<open>productsFound\<close>: \<^verbatim>\<open>tryEmbeddedJson\<close> and the loop
  over its products, or, when it has none but returns the page's text, the DOM
  extraction on that text.
\<close>

definition embedded_stage ::
  "(string set \<Rightarrow> dom \<Rightarrow> jv list \<times> string set) \<Rightarrow> env \<Rightarrow> list_page_v1 \<Rightarrow> nat \<Rightarrow> string set
     \<Rightarrow> strategy list \<times> error option \<times> jv list \<times> string set" where
  "embedded_stage extractHtml E pg savedp seen =
     (case embedded_products pg of
        Some (p # ps) \<Rightarrow>
          (case process_products (processApiProduct E) (MAX_PRODUCTS E) savedp (p # ps) ([], seen) of
             (err, found, seen') \<Rightarrow> ([EmbeddedJson], err, found, seen'))
      | other \<Rightarrow>
          (case embedded_html pg of
             None \<Rightarrow> ([EmbeddedJson], None, [], seen)
           | Some h \<Rightarrow>
               (case extractHtml seen h of
                  (found, seen') \<Rightarrow> ([EmbeddedJson, DomHeuristic], None, found, seen'))))"

text \<open>The last resort, entered with an empty \<^verbatim>\<open>productsFound\<close>: the DOM extraction on \<^verbatim>\<open>$\<close>.\<close>

definition dom_stage ::
  "(string set \<Rightarrow> dom \<Rightarrow> jv list \<times> string set) \<Rightarrow> list_page_v1 \<Rightarrow> string set
     \<Rightarrow> strategy list \<times> jv list \<times> string set" where
  "dom_stage extractHtml pg seen =
     (case current_dom pg of
        None \<Rightarrow> ([], [], seen)
      | Some d \<Rightarrow> (case extractHtml seen d of (found, seen') \<Rightarrow> ([DomHeuristic], found, seen')))"

definition api_chain ::
  "(string set \<Rightarrow> dom \<Rightarrow> jv list \<times> string set) \<Rightarrow> env \<Rightarrow> list_page_v1 \<Rightarrow> nat \<Rightarrow> string set
     \<Rightarrow> strategy list \<times> error option \<times> jv list \<times> string set" where
  "api_chain extractHtml E pg savedp seen =
     (case api_stage E pg savedp seen of
        (Some e, found, seen1) \<Rightarrow> ([StructuredApi], Some e, found, seen1)
      | (None, found, seen1) \<Rightarrow>
         (case (if found = [] then embedded_stage extractHtml E pg savedp seen1
                else ([], None, found, seen1)) of
            (tr2, Some e, found2, seen2) \<Rightarrow> (StructuredApi # tr2, Some e, found2, seen2)
          | (tr2, None, found2, seen2) \<Rightarrow>
             (if found2 = [] then
                (case dom_stage extractHtml pg seen2 of
                   (tr3, found3, seen3) \<Rightarrow> (StructuredApi # tr2 @ tr3, None, found3, seen3))
              else (StructuredApi # tr2, None, found2, seen2))))"

text \<open>The priority of a strategy: smaller is tried first.\<close>

fun priority :: "strategy \<Rightarrow> nat" where
  "priority StructuredApi = 0"
| "priority EmbeddedJson = 1"
| "priority DomHeuristic = 2"

section \<open>Detail handlers under interleaving\<close>

text \<open>
  The crawler runs several handlers at once; a handler gives way at each \<^verbatim>\<open>await\<close>.  The
  \<^verbatim>\<open>DETAIL\<close> branch has three uninterrupted parts: the test of \<^verbatim>\<open>saved\<close> up to
  \<^verbatim>\<open>await extractProductDetails\<close>; the merge up to \<^verbatim>\<open>await Dataset.pushData\<close>; and
  \<^verbatim>\<open>saved++\<close>.  A task records where its handler stands.
\<close>

datatype detail_pc = AtGuard | AtMerge jv | AtCount | Finished

record detail_task =
  t_pc :: detail_pc
  t_request :: request
  t_page :: "detail_page option"

definition detail_step :: "env \<Rightarrow> string \<Rightarrow> detail_task \<Rightarrow> run_state \<Rightarrow> detail_task \<times> run_state" where
  "detail_step E now t st =
     (case t_pc t of
        AtGuard \<Rightarrow>
          if MAX_PRODUCTS E \<le> saved st then (t\<lparr>t_pc := Finished\<rparr>, st)
          else (t\<lparr>t_pc := AtMerge (extractProductDetails E (req_url (t_request t)) (t_page t))\<rparr>, st)
      | AtMerge details \<Rightarrow>
          (t\<lparr>t_pc := AtCount\<rparr>,
           st\<lparr>dataset := dataset st @
                [merge_detail (js_or (req_baseData (t_request t)) (JObj [])) details
                   (req_url (t_request t)) (js_or (category E) JNull) now]\<rparr>)
      | AtCount \<Rightarrow> (t\<lparr>t_pc := Finished\<rparr>, st\<lparr>saved := saved st + 1\<rparr>)
      | Finished \<Rightarrow> (t, st))"

text \<open>A schedule names, step by step, the task that runs its next part.\<close>

fun run_schedule :: "env \<Rightarrow> string \<Rightarrow> nat list \<Rightarrow> detail_task list \<times> run_state
    \<Rightarrow> detail_task list \<times> run_state" where
  "run_schedule E now [] cfg = cfg"
| "run_schedule E now (i # sched) (tasks, st) =
     (if i < length tasks
      then (case detail_step E now (tasks ! i) st of
              (t', st') \<Rightarrow> run_schedule E now sched (tasks[i := t'], st'))
      else run_schedule E now sched (tasks, st))"

definition detail_task_of :: "request \<Rightarrow> detail_page option \<Rightarrow> detail_task" where
  "detail_task_of request page = \<lparr>t_pc = AtGuard, t_request = request, t_page = page\<rparr>"

section \<open>Notions used in the statements\<close>

text \<open>The id a record carries.\<close>

definition pid :: "jv \<Rightarrow> jv" where
  "pid r = get r ''productId''"

text \<open>
  Records whose ids were claimed between two states of \<^verbatim>\<open>seenProducts\<close>: the set grew, the
  ids are pairwise different strings that were not in the earlier set and are in the later
  one, and no record has a key twice.
\<close>

definition fresh_records :: "string set \<Rightarrow> string set \<Rightarrow> jv list \<Rightarrow> bool" where
  "fresh_records seen seen' rs =
     (seen \<subseteq> seen' \<and> distinct (map pid rs)
      \<and> (\<forall>r \<in> set rs. \<exists>i. pid r = JStr i \<and> i \<notin> seen \<and> i \<in> seen'
            \<and> distinct (map fst (own_props r))))"

text \<open>A function that claims an id in the way \<^verbatim>\<open>processApiProduct\<close> does.\<close>

definition claims_fresh :: "(string set \<Rightarrow> jv \<Rightarrow> (error + jv) \<times> string set) \<Rightarrow> bool" where
  "claims_fresh f =
     (\<forall>seen p res seen'. f seen p = (res, seen') \<longrightarrow>
        seen \<subseteq> seen' \<and> (\<forall>r. res = Inr r \<longrightarrow> truthy r \<longrightarrow> fresh_records seen seen' [r]))"

text \<open>The test and the request of the loop over \<^verbatim>\<open>productsFound\<close>.\<close>

definition wants_detail :: "env \<Rightarrow> jv \<Rightarrow> bool" where
  "wants_detail E product = (collectDetails E \<and> truthy (get product ''url''))"

definition detail_request_of :: "jv \<Rightarrow> request" where
  "detail_request_of product =
     \<lparr>req_url = js_String (get product ''url''), req_label = DETAIL, req_pageNo = 0,
      req_baseData = product\<rparr>"

text \<open>
  What a strategy adds to \<^verbatim>\<open>productsFound\<close>: the records of its products that have an id
  new to \<^verbatim>\<open>seenProducts\<close>, while the product budget lasts.
\<close>

definition embedded_yield :: "env \<Rightarrow> list_page_v1 \<Rightarrow> nat \<Rightarrow> string set \<Rightarrow> jv list" where
  "embedded_yield E pg savedp seen =
     (case embedded_products pg of
        None \<Rightarrow> []
      | Some ps \<Rightarrow>
          fst (snd (process_products (processApiProduct E) (MAX_PRODUCTS E) savedp ps ([], seen))))"

definition jsonld_yield :: "env \<Rightarrow> list_page \<Rightarrow> nat \<Rightarrow> string set \<Rightarrow> jv list" where
  "jsonld_yield E pg savedp seen =
     (case json_products pg of
        None \<Rightarrow> []
      | Some ps \<Rightarrow>
          fst (snd (process_products (processJsonLdProduct E) (MAX_PRODUCTS E) savedp ps ([], seen))))"




section \<open>Example inputs\<close>

text \<open>
  A configuration for the examples: basic mode, ten products, three pages.  Its
  \<open>parseFloat\<close> reads whole numbers, its \<open>toAbs\<close> puts the base in front of a relative
  reference, and its \<open>searchParams_set\<close> replaces the whole query; that is what the
  platform does on the URLs of the examples.
\<close>

definition parseFloat0 :: "string \<Rightarrow> jv" where
  "parseFloat0 s = (case parseInt10 s of None \<Rightarrow> JUndefined | Some n \<Rightarrow> JNum n)"

definition env0 :: env where
  "env0 = \<lparr>toAbs = (\<lambda>href b. Some (if take 8 href = ''https://'' then href else b @ href)),
            parseFloat = parseFloat0,
            searchParams_has = (\<lambda>u k. str_includes u (k @ ''='')),
            searchParams_get = (\<lambda>u k. None),
            searchParams_set = (\<lambda>u k v. takeWhile (\<lambda>c. c \<noteq> CHR ''?'') u @ ''?'' @ k @ ''='' @ v),
            base = ''https://www.ikea.com/gb/en'', category = JStr ''new-products'',
            MAX_PRODUCTS = 10, MAX_PAGES = 3, collectDetails = False\<rparr>"

definition card0 :: card where
  "card0 = \<lparr>c_links = [(Some ''/p/chokladhaj-food-storage-box-40604574/'', None)],
             c_name_texts = [''CHOKLADHAJ''],
             c_text = ''CHOKLADHAJ 10'',
             c_images = [],
             c_rating = JNull, c_reviewCount = JNull\<rparr>"

definition record0 :: jv where
  "record0 = JObj
    [(''productId'', JStr ''40604574''), (''name'', JStr ''CHOKLADHAJ''),
     (''price'', JNum 10), (''currency'', JNull), (''image'', JNull),
     (''url'', JStr ''https://www.ikea.com/gb/en/p/chokladhaj-food-storage-box-40604574/''),
     (''rating'', JNull), (''reviewCount'', JNull),
     (''availability'', JStr ''Available'')]"

definition page0 :: list_page where
  "page0 = \<lparr>json_products = None, page_dom = Some [[], [card0]], next_links = []\<rparr>"

definition req0 :: request where
  "req0 = \<lparr>req_url = ''https://www.ikea.com/gb/en/new/new-products/'', req_label = LIST, req_pageNo = 1, req_baseData = JUndefined\<rparr>"

definition api_product0 :: jv where
  "api_product0 =
     JObj [(''id'', JNum 40604574), (''name'', JStr ''CHOKLADHAJ Food  box''),
           (''price'', JObj [(''value'', JNum 10)]),
           (''url'', JStr ''https://www.ikea.com/gb/en/p/chokladhaj-food-box-40604574/''),
           (''availability'', JStr ''In stock'')]"

definition next_request0 :: request where
  "next_request0 = \<lparr>req_url = ''https://www.ikea.com/gb/en/new/new-products/?page=2'',
                      req_label = LIST, req_pageNo = 2, req_baseData = JUndefined\<rparr>"

definition after_page0 :: run_state where
  "after_page0 = \<lparr>saved = 1, seenProducts = {''40604574''}, dataset = [basic_record env0 record0],
                    requestQueue = [next_request0], detailRequests = [], errorLog = []\<rparr>"





definition env_detail :: env where
  "env_detail = env0\<lparr>collectDetails := True\<rparr>"

definition card_unparsable :: card where
  "card_unparsable = \<lparr>c_links = [(Some ''/p/billy-bookcase-white-s49017827/'', None)],
             c_name_texts = [''BILLY''],
             c_text = ''BILLY 45'',
             c_images = [],
             c_rating = JNull, c_reviewCount = JNull\<rparr>"

definition sik_billy :: jv where
  "sik_billy =
     JObj [(''itemNo'', JStr ''49017827''), (''name'', JStr ''BILLY''),
           (''typeName'', JStr ''Bookcase''),
           (''salesPrice'', JObj [(''numeral'', JNum 45), (''currencyCode'', JStr ''GBP'')]),
           (''pipUrl'', JStr ''https://www.ikea.com/gb/en/p/billy-bookcase-white-s49017827/'')]"

definition billy_listing :: jv where
  "billy_listing =
     JObj [(''productId'', JStr ''49017827''), (''name'', JStr ''BILLY Bookcase''),
           (''price'', JNum 45), (''currency'', JStr ''GBP''), (''image'', JNull),
           (''url'', JStr ''https://www.ikea.com/gb/en/p/billy-bookcase-white-s49017827/''),
           (''rating'', JNull), (''reviewCount'', JNull),
           (''availability'', JStr ''Check availability''),
           (''category'', JStr ''new-products'')]"

definition billy_request :: request where
  "billy_request = \<lparr>req_url = ''https://www.ikea.com/gb/en/p/billy-bookcase-white-s49017827/'',
                      req_label = LIST, req_pageNo = 0, req_baseData = billy_listing\<rparr>"

definition blank_page :: detail_page where
  "blank_page = \<lparr>d_name_texts = [], d_price_match = None, d_desc_texts = [],
                  d_measure_match = None, d_image_srcs = [], d_rating = JNull,
                  d_reviewCount = JNull, d_feature_texts = [], d_type_match = None,
                  d_avail_match = None\<rparr>"

definition now0 :: string where
  "now0 = ''2025-12-28T10:30:00.000Z''"

definition api_product_unpriced :: jv where
  "api_product_unpriced = JObj [(''id'', JStr ''10275814''), (''name'', JStr ''KALLAX'')]"

definition card_billy_url :: string where
  "card_billy_url = ''https://www.ikea.com/gb/en/p/billy-bookcase-white-s49017827/''"


definition listing_priced :: jv where
  "listing_priced = JObj [(''productId'', JStr ''40604574''), (''name'', JStr ''X''), (''price'', JNum 10)]"


definition detail_url0 :: string where
  "detail_url0 = ''https://www.ikea.com/gb/en/p/chokladhaj-food-storage-box-40604574/''"

definition detail_request :: "jv \<Rightarrow> request" where
  "detail_request b = \<lparr>req_url = detail_url0, req_label = DETAIL, req_pageNo = 0, req_baseData = b\<rparr>"


text \<open>Two detail pages handled at the same time under a ceiling of one product.\<close>

definition env_one :: env where
  "env_one = env0\<lparr>collectDetails := True, MAX_PRODUCTS := 1\<rparr>"

definition listing_y :: jv where
  "listing_y = JObj [(''productId'', JStr ''10275814''), (''name'', JStr ''Y''), (''price'', JNum 20)]"

definition detail_request_y :: request where
  "detail_request_y = \<lparr>req_url = ''https://www.ikea.com/gb/en/p/kallax-10275814/'',
                         req_label = DETAIL, req_pageNo = 0, req_baseData = listing_y\<rparr>"

definition two_tasks :: "detail_task list" where
  "two_tasks = [detail_task_of (detail_request listing_priced) (Some blank_page),
                detail_task_of detail_request_y (Some blank_page)]"

text \<open>Pages on which more than one strategy finds products.\<close>

definition fixture_v1 :: list_page_v1 where
  "fixture_v1 = \<lparr>api_products = Some [api_product0],
                  embedded_products = Some [api_product_unpriced],
                  embedded_html = Some [[card0]],
                  current_dom = Some [[card0]]\<rparr>"

definition jsonld_item0 :: jv where
  "jsonld_item0 = JObj [(''id'', JStr ''10275814''), (''name'', JStr ''KALLAX'')]"

definition fixture_v2 :: list_page where
  "fixture_v2 = \<lparr>json_products = Some [jsonld_item0], page_dom = Some [[card0]], next_links = []\<rparr>"

text \<open>A later page whose API products were all seen on an earlier page.\<close>

definition fixture_seen :: list_page_v1 where
  "fixture_seen = \<lparr>api_products = Some [api_product0], embedded_products = None,
                    embedded_html = None, current_dom = Some [[card0]]\<rparr>"






section \<open>Properties\<close>

lemma truthy_js_or: "truthy (js_or a b) = (truthy a \<or> truthy b)"
  by (simp add: js_or_def)

lemma api_record_not_null: "api_record E product productId u \<noteq> JNull"
  by (simp add: api_record_def)

lemma get_JObj:
  "get (JObj kvs) k = (case map_of kvs k of None \<Rightarrow> JUndefined | Some x \<Rightarrow> x)"
  by (simp add: get_def)

lemma api_record_availability:
  "get (api_record E product productId u) ''availability'' =
     (if truthy (get product ''availability'')
         \<or> truthy (get product ''availableForClickAndCollect'')
      then JStr ''Available'' else JStr ''Check availability'')"
  by (simp add: api_record_def truthy_js_or get_JObj)

lemma processApiProduct_record:
  assumes "processApiProduct E seen product = (Inr r, seen')" and "r \<noteq> JNull"
  shows "\<exists>productId u. r = api_record E product productId u"
  using assms
  by (auto simp: processApiProduct_def Let_def split: if_splits sum.splits)

lemma show_int_40604574: "show_int 40604574 = ''40604574''"
  by (simp add: show_int_def digit_char_def)

lemma map_of_set_prop: "map_of (set_prop k v kvs) = (map_of kvs)(k \<mapsto> v)"
  by (induction kvs) auto

lemma get_set_prop:
  "get (JObj (set_prop k v kvs)) k' = (if k' = k then v else get (JObj kvs) k')"
  by (simp add: map_of_set_prop get_JObj)

lemma map_of_foldl_set_prop:
  "map_of (foldl (\<lambda>acc (k, x). set_prop k x acc) t kvs) = map_of t ++ map_of (rev kvs)"
proof (induction kvs arbitrary: t)
  case Nil
  then show ?case by simp
next
  case (Cons kv kvs)
  obtain k v where kv: "kv = (k, v)" by (cases kv)
  have "map_of (foldl (\<lambda>acc (k, x). set_prop k x acc) t (kv # kvs))
          = map_of (set_prop k v t) ++ map_of (rev kvs)"
    by (simp add: kv Cons.IH)
  also have "\<dots> = map_of t ++ map_of (rev (kv # kvs))"
    by (rule ext) (auto simp: kv map_of_set_prop map_add_def split: option.splits)
  finally show ?case .
qed

lemma map_of_rev_distinct: "distinct (map fst kvs) \<Longrightarrow> map_of (rev kvs) = map_of kvs"
proof (induction kvs)
  case Nil
  then show ?case by simp
next
  case (Cons kv kvs)
  obtain k v where kv: "kv = (k, v)" by (cases kv)
  from Cons.prems have notin: "map_of kvs k = None" and d: "distinct (map fst kvs)"
    by (auto simp: kv map_of_eq_None_iff)
  show ?case
    by (rule ext) (simp add: kv Cons.IH [OF d] map_add_def notin split: option.splits)
qed

lemma get_spread:
  assumes "distinct (map fst (own_props v))"
  shows "get (JObj (spread t v)) k =
           (case map_of (own_props v) k of Some x \<Rightarrow> x | None \<Rightarrow> get (JObj t) k)"
  using assms
  by (simp add: spread_def map_of_foldl_set_prop map_of_rev_distinct map_add_def get_JObj
           split: option.splits)

lemma get_own_props: "(case map_of (own_props v) k of Some x \<Rightarrow> x | None \<Rightarrow> JUndefined) = get v k"
  by (cases v) (simp_all add: get_def)

lemma get_spread_empty:
  assumes "distinct (map fst (own_props v))"
  shows "get (JObj (spread [] v)) k = get v k"
proof (cases v)
  case (JObj kvs)
  with assms get_spread [of v "[]" k] show ?thesis by (simp add: get_def split: option.splits)
qed (simp_all add: spread_def get_def)

lemma get_basic_record:
  assumes "distinct (map fst (own_props p))" and "k \<noteq> ''category''"
  shows "get (basic_record E p) k = get p k"
  using assms by (simp add: basic_record_def get_set_prop get_spread_empty)

lemma get_merge_detail:
  assumes "distinct (map fst (own_props b))" and "distinct (map fst (own_props d))"
  shows "get (merge_detail b d u c now) k =
     (if k = ''scrapedAt'' then JStr now
      else if k = ''category'' then c
      else if k = ''url'' then JStr u
      else case map_of (own_props d) k of Some x \<Rightarrow> x | None \<Rightarrow> get b k)"
proof -
  have 1: "get (JObj (spread (spread [] b) d)) k =
             (case map_of (own_props d) k of Some x \<Rightarrow> x | None \<Rightarrow> get (JObj (spread [] b)) k)"
    by (rule get_spread [OF assms(2)])
  have 2: "get (JObj (spread [] b)) k = get b k"
    by (rule get_spread_empty [OF assms(1)])
  show ?thesis
    unfolding merge_detail_def get_set_prop 1 2 by simp
qed

lemma fst_opt_field: "map fst (opt_field k r) = (if r = None then [] else [k])"
  by (simp add: opt_field_def split: option.splits)

lemma distinct_detail_data: "distinct (map fst (detail_data E u pg))"
  by (simp add: detail_data_def fst_opt_field)

lemma fresh_records_Nil: "seen \<subseteq> seen' \<Longrightarrow> fresh_records seen seen' []"
  by (simp add: fresh_records_def)

lemma fresh_records_append:
  assumes "fresh_records s0 s1 rs" and "fresh_records s1 s2 rs'"
  shows "fresh_records s0 s2 (rs @ rs')"
proof -
  have sub: "s0 \<subseteq> s1" "s1 \<subseteq> s2"
    using assms by (simp_all add: fresh_records_def)
  have d: "distinct (map pid rs)" "distinct (map pid rs')"
    using assms by (simp_all add: fresh_records_def)
  have a: "\<exists>i. pid r = JStr i \<and> i \<notin> s0 \<and> i \<in> s1 \<and> distinct (map fst (own_props r))"
    if "r \<in> set rs" for r
    using assms(1) that unfolding fresh_records_def by blast
  have b: "\<exists>i. pid r = JStr i \<and> i \<notin> s1 \<and> i \<in> s2 \<and> distinct (map fst (own_props r))"
    if "r \<in> set rs'" for r
    using assms(2) that unfolding fresh_records_def by blast
  have disj: "pid r \<noteq> pid r'" if "r \<in> set rs" and "r' \<in> set rs'" for r r'
  proof -
    from a [OF that(1)] obtain i where i: "pid r = JStr i" "i \<in> s1" by blast
    from b [OF that(2)] obtain j where j: "pid r' = JStr j" "j \<notin> s1" by blast
    from i j show ?thesis by auto
  qed
  have dist: "distinct (map pid (rs @ rs'))"
    using d disj by auto
  have all: "\<exists>i. pid r = JStr i \<and> i \<notin> s0 \<and> i \<in> s2 \<and> distinct (map fst (own_props r))"
    if "r \<in> set (rs @ rs')" for r
  proof (cases "r \<in> set rs")
    case True
    from a [OF True] sub show ?thesis by blast
  next
    case False
    with that have "r \<in> set rs'" by simp
    from b [OF this] sub show ?thesis by blast
  qed
  from sub dist all show ?thesis
    unfolding fresh_records_def by blast
qed

lemma card_product_pid: "pid (card_product E c i u a) = JStr i"
  by (simp add: pid_def card_product_def get_JObj)

lemma distinct_card_product: "distinct (map fst (own_props (card_product E c i u a)))"
  by (simp add: card_product_def)

lemma last_dash_digits_nonempty:
  "last_dash_digits cs found = Some i \<Longrightarrow> (\<forall>j. found = Some j \<longrightarrow> j \<noteq> []) \<Longrightarrow> i \<noteq> []"
proof (induction cs arbitrary: found)
  case Nil
  then show ?case by simp
next
  case (Cons c cs)
  show ?case
  proof (rule Cons.IH [OF Cons.prems(1) [simplified]])
    show "\<forall>j. (if c = CHR ''-'' \<and> (case cs of [] \<Rightarrow> False | d # ds \<Rightarrow> is_digit d)
               then Some (takeWhile is_digit cs) else found) = Some j \<longrightarrow> j \<noteq> []"
      using Cons.prems(2) by (auto split: list.splits)
  qed
qed

lemma last_dash_digits_digits:
  "last_dash_digits cs found = Some i \<Longrightarrow> (\<forall>j. found = Some j \<longrightarrow> (\<forall>c\<in>set j. is_digit c))
     \<Longrightarrow> \<forall>c\<in>set i. is_digit c"
proof (induction cs arbitrary: found)
  case Nil
  then show ?case by simp
next
  case (Cons c cs)
  show ?case
  proof (rule Cons.IH [OF Cons.prems(1) [simplified]])
    show "\<forall>j. (if c = CHR ''-'' \<and> (case cs of [] \<Rightarrow> False | d # ds \<Rightarrow> is_digit d)
               then Some (takeWhile is_digit cs) else found) = Some j \<longrightarrow> (\<forall>c\<in>set j. is_digit c)"
      using Cons.prems(2) by (auto dest: set_takeWhileD)
  qed
qed

lemma match_pid_nonempty: "match_pid u = Some i \<Longrightarrow> i \<noteq> [] \<and> (\<forall>c\<in>set i. is_digit c)"
proof (induction u)
  case Nil
  then show ?case by simp
next
  case (Cons c cs)
  then show ?case
    by (auto simp: segment_id_def split: if_splits option.splits list.splits
             dest: last_dash_digits_nonempty last_dash_digits_digits)
qed

lemma extract_card_skip:
  "card_url E c = None \<Longrightarrow> extract_card E c st = st"
  by (cases st) (simp add: extract_card_def)

lemma extract_card_unparsable:
  "card_url E c = Some (u, a) \<Longrightarrow> match_pid u = None \<Longrightarrow> extract_card E c st = st"
  by (cases st) (simp add: extract_card_def)

lemma extract_card_seen:
  "card_url E c = Some (u, a) \<Longrightarrow> match_pid u = Some i \<Longrightarrow> i \<in> seen
     \<Longrightarrow> extract_card E c (ps, seen) = (ps, seen)"
  by (simp add: extract_card_def)

lemma extract_card_claim:
  "card_url E c = Some (u, a) \<Longrightarrow> match_pid u = Some i \<Longrightarrow> i \<notin> seen
     \<Longrightarrow> extract_card E c (ps, seen) =
          (if truthy (get (card_product E c i u a) ''name'')
              \<and> truthy (get (card_product E c i u a) ''price'')
           then ps @ [card_product E c i u a] else ps, insert i seen)"
  by (simp add: extract_card_def Let_def)

lemma extract_card_fresh:
  assumes "extract_card E c (ps, seen) = (ps', seen')"
  shows "\<exists>new. ps' = ps @ new \<and> fresh_records seen seen' new
           \<and> (\<forall>r\<in>set new. truthy (get r ''name'') \<and> truthy (get r ''price'')
                 \<and> get r ''currency'' = JNull)"
proof (cases "card_url E c")
  case None
  with assms show ?thesis by (simp add: extract_card_skip fresh_records_def)
next
  case (Some ua)
  obtain u a where ua: "ua = (u, a)" by (cases ua)
  show ?thesis
  proof (cases "match_pid u")
    case None
    with assms Some ua show ?thesis by (simp add: extract_card_unparsable fresh_records_def)
  next
    case (Some i)
    note mi = this
    show ?thesis
    proof (cases "i \<in> seen")
      case True
      with assms \<open>card_url E c = Some ua\<close> ua mi show ?thesis
        by (simp add: extract_card_seen fresh_records_def)
    next
      case False
      have cur: "get (card_product E c i u a) ''currency'' = JNull"
        by (simp add: card_product_def get_JObj)
      from assms \<open>card_url E c = Some ua\<close> ua mi False cur show ?thesis
        by (auto simp: extract_card_claim fresh_records_def card_product_pid distinct_card_product
                 split: if_splits)
    qed
  qed
qed

lemma extract_cards_fresh:
  assumes "extract_cards E cs (ps, seen) = (ps', seen')"
  shows "\<exists>new. ps' = ps @ new \<and> fresh_records seen seen' new
           \<and> (\<forall>r\<in>set new. truthy (get r ''name'') \<and> truthy (get r ''price'')
                 \<and> get r ''currency'' = JNull)"
  using assms
proof (induction cs arbitrary: ps seen)
  case Nil
  then show ?case by (simp add: fresh_records_def)
next
  case (Cons c cs)
  obtain ps1 seen1 where step: "extract_card E c (ps, seen) = (ps1, seen1)"
    by (cases "extract_card E c (ps, seen)")
  from extract_card_fresh [OF step] obtain new1 where
    n1: "ps1 = ps @ new1" "fresh_records seen seen1 new1"
        "\<forall>r\<in>set new1. truthy (get r ''name'') \<and> truthy (get r ''price'') \<and> get r ''currency'' = JNull"
    by blast
  from Cons.prems step have "extract_cards E cs (ps1, seen1) = (ps', seen')" by simp
  from Cons.IH [OF this] obtain new2 where
    n2: "ps' = ps1 @ new2" "fresh_records seen1 seen' new2"
        "\<forall>r\<in>set new2. truthy (get r ''name'') \<and> truthy (get r ''price'') \<and> get r ''currency'' = JNull"
    by blast
  from n1 n2 have "ps' = ps @ (new1 @ new2)" by simp
  moreover from n1 n2 have "fresh_records seen seen' (new1 @ new2)"
    by (blast intro: fresh_records_append)
  moreover from n1 n2 have "\<forall>r\<in>set (new1 @ new2). truthy (get r ''name'') \<and> truthy (get r ''price'')
                 \<and> get r ''currency'' = JNull" by auto
  ultimately show ?case by blast
qed

lemma fresh_single:
  "pid r = JStr i \<Longrightarrow> i \<notin> seen \<Longrightarrow> distinct (map fst (own_props r))
     \<Longrightarrow> fresh_records seen (insert i seen) [r]"
  by (auto simp: fresh_records_def)

lemma jsonld_record_pid: "pid (jsonld_record E p i) = JStr (js_String i)"
  by (simp add: pid_def jsonld_record_def Let_def get_JObj)

lemma distinct_jsonld_record: "distinct (map fst (own_props (jsonld_record E p i)))"
  by (simp add: jsonld_record_def Let_def)

lemma api_record_pid: "pid (api_record E p i u) = JStr (js_String i)"
  by (simp add: pid_def api_record_def get_JObj)

lemma distinct_api_record: "distinct (map fst (own_props (api_record E p i u)))"
  by (simp add: api_record_def)



lemma claims_fresh_jsonld: "claims_fresh (processJsonLdProduct E)"
  unfolding claims_fresh_def
proof (intro allI impI)
  fix seen p res seen'
  assume a: "processJsonLdProduct E seen p = (res, seen')"
  show "seen \<subseteq> seen' \<and> (\<forall>r. res = Inr r \<longrightarrow> truthy r \<longrightarrow> fresh_records seen seen' [r])"
  proof (cases "nullish p \<or> \<not> truthy (jsonld_id p) \<or> js_String (jsonld_id p) \<in> seen")
    case True
    with a show ?thesis by (auto simp: processJsonLdProduct_def split: if_splits)
  next
    case False
    with a have "res = Inr (jsonld_record E p (jsonld_id p))"
      and "seen' = insert (js_String (jsonld_id p)) seen"
      by (auto simp: processJsonLdProduct_def)
    with False show ?thesis
      by (auto intro!: fresh_single simp: jsonld_record_pid distinct_jsonld_record)
  qed
qed

lemma claims_fresh_api: "claims_fresh (processApiProduct E)"
  unfolding claims_fresh_def
proof (intro allI impI)
  fix seen p res seen'
  assume a: "processApiProduct E seen p = (res, seen')"
  let ?i = "js_or (js_or (get p ''id'') (get p ''productId'')) (get p ''itemNo'')"
  show "seen \<subseteq> seen' \<and> (\<forall>r. res = Inr r \<longrightarrow> truthy r \<longrightarrow> fresh_records seen seen' [r])"
  proof (cases "nullish p \<or> \<not> truthy ?i \<or> js_String ?i \<in> seen")
    case True
    with a show ?thesis by (auto simp: processApiProduct_def Let_def split: if_splits)
  next
    case False
    show ?thesis
    proof (cases "api_url E p ?i")
      case (Inl e)
      with a False show ?thesis by (auto simp: processApiProduct_def Let_def)
    next
      case (Inr u)
      with a False have "res = Inr (api_record E p ?i u)" and "seen' = insert (js_String ?i) seen"
        by (auto simp: processApiProduct_def Let_def)
      with False show ?thesis
        by (auto intro!: fresh_single simp: api_record_pid distinct_api_record)
    qed
  qed
qed


lemma process_products_fresh:
  assumes "claims_fresh f"
      and "process_products f m s ps (found, seen) = (err, found', seen')"
  shows "\<exists>new. found' = found @ new \<and> fresh_records seen seen' new"
  using assms(2)
proof (induction ps arbitrary: found seen)
  case Nil
  then show ?case by (simp add: fresh_records_def)
next
  case (Cons p ps)
  show ?case
  proof (cases "m \<le> s")
    case True
    with Cons.prems show ?thesis by (simp add: fresh_records_def)
  next
    case False
    obtain res seen1 where f: "f seen p = (res, seen1)" by (cases "f seen p")
    from assms(1) f have sub: "seen \<subseteq> seen1"
      and fr: "\<And>r. res = Inr r \<Longrightarrow> truthy r \<Longrightarrow> fresh_records seen seen1 [r]"
      unfolding claims_fresh_def by blast+
    show ?thesis
    proof (cases res)
      case (Inl e)
      with Cons.prems False f sub show ?thesis by (simp add: fresh_records_def)
    next
      case (Inr r)
      let ?new1 = "if truthy r then [r] else []"
      from Inr fr sub have fr1: "fresh_records seen seen1 ?new1"
        by (simp add: fresh_records_Nil)
      from Cons.prems False f Inr
      have "process_products f m s ps (found @ ?new1, seen1) = (err, found', seen')"
        by (cases "truthy r") simp_all
      from Cons.IH [OF this] obtain new2 where
        n2: "found' = (found @ ?new1) @ new2" "fresh_records seen1 seen' new2" by blast
      from fresh_records_append [OF fr1 n2(2)] n2(1) show ?thesis by auto
    qed
  qed
qed

lemma extractProductsFromHtml_fresh:
  assumes "extractProductsFromHtml E seen d = (ps, seen')"
  shows "fresh_records seen seen' ps
           \<and> (\<forall>r\<in>set ps. truthy (get r ''name'') \<and> truthy (get r ''price'')
                 \<and> get r ''currency'' = JNull)"
  using extract_cards_fresh [of E "productElements d" "[]" seen ps seen'] assms
  by (auto simp: extractProductsFromHtml_def)

lemma html_chain_fresh:
  assumes "html_chain E pg s seen = (tr, err, found, seen')"
  shows "fresh_records seen seen' found"
proof -
  obtain e1 f1 s1 where st1:
    "(case json_products pg of None \<Rightarrow> (None, [], seen)
      | Some ps \<Rightarrow> process_products (processJsonLdProduct E) (MAX_PRODUCTS E) s ps ([], seen))
     = (e1, f1, s1)"
    by (metis prod_cases3)
  have fr1: "fresh_records seen s1 f1"
  proof (cases "json_products pg")
    case None
    with st1 show ?thesis by (simp add: fresh_records_def)
  next
    case (Some ps)
    with st1 process_products_fresh [OF claims_fresh_jsonld, of E "MAX_PRODUCTS E" s ps "[]" seen e1 f1 s1]
    show ?thesis by simp
  qed
  show ?thesis
  proof (cases e1)
    case (Some e)
    with assms st1 fr1 show ?thesis by (simp add: html_chain_def)
  next
    case None
    show ?thesis
    proof (cases "f1 = []")
      case False
      with assms st1 fr1 None show ?thesis by (simp add: html_chain_def)
    next
      case True
      show ?thesis
      proof (cases "page_dom pg")
        case None
        with assms st1 fr1 \<open>e1 = None\<close> True show ?thesis by (simp add: html_chain_def)
      next
        case (Some d)
        obtain f2 s2 where x: "extractProductsFromHtml E s1 d = (f2, s2)"
          by (cases "extractProductsFromHtml E s1 d")
        from extractProductsFromHtml_fresh [OF x] have "fresh_records s1 s2 f2" by simp
        from fresh_records_append [OF fr1 this] True
        have "fresh_records seen s2 f2" by simp
        with assms st1 \<open>e1 = None\<close> True Some x show ?thesis by (simp add: html_chain_def)
      qed
    qed
  qed
qed

lemma emit_products_effect:
  "\<exists>k. dataset (emit_products E found st) =
          dataset st @ map (basic_record E) (filter (\<lambda>p. \<not> wants_detail E p) (take k found))
      \<and> requestQueue (emit_products E found st) =
          requestQueue st @ map detail_request_of (filter (wants_detail E) (take k found))
      \<and> saved (emit_products E found st) =
          saved st + length (filter (\<lambda>p. \<not> wants_detail E p) (take k found))"
proof (induction found arbitrary: st)
  case Nil
  then show ?case by simp
next
  case (Cons p ps)
  show ?case
  proof (cases "MAX_PRODUCTS E \<le> saved st")
    case True
    then have "emit_products E (p # ps) st = st" by simp
    then show ?thesis by (intro exI [of _ 0]) simp
  next
    case False
    let ?st1 = "if wants_detail E p then enqueue (detail_request_of p) st
                else push_record (basic_record E p) st"
    from False have step: "emit_products E (p # ps) st = emit_products E ps ?st1"
      by (simp add: wants_detail_def detail_request_of_def)
    from Cons.IH [of ?st1] obtain k where k:
      "dataset (emit_products E ps ?st1) =
          dataset ?st1 @ map (basic_record E) (filter (\<lambda>p. \<not> wants_detail E p) (take k ps))"
      "requestQueue (emit_products E ps ?st1) =
          requestQueue ?st1 @ map detail_request_of (filter (wants_detail E) (take k ps))"
      "saved (emit_products E ps ?st1) =
          saved ?st1 + length (filter (\<lambda>p. \<not> wants_detail E p) (take k ps))"
      by blast
    show ?thesis
      unfolding step
      by (rule exI [of _ "Suc k"]) (use k in \<open>simp add: enqueue_def push_record_def\<close>)
  qed
qed

lemma emit_products_frame:
  "seenProducts (emit_products E found st) = seenProducts st
   \<and> detailRequests (emit_products E found st) = detailRequests st
   \<and> errorLog (emit_products E found st) = errorLog st"
  by (induction found arbitrary: st) (simp_all add: enqueue_def push_record_def)

lemma emit_products_budget:
  "saved st \<le> MAX_PRODUCTS E \<Longrightarrow> saved (emit_products E found st) \<le> MAX_PRODUCTS E"
  by (induction found arbitrary: st) (simp_all add: enqueue_def push_record_def)

lemma paginate_cases:
  "paginate E pg rq n found st = st
   \<or> (\<exists>u. paginate E pg rq n found st =
            enqueue \<lparr>req_url = u, req_label = LIST, req_pageNo = n + 1,
                      req_baseData = JUndefined\<rparr> st
          \<and> saved st < MAX_PRODUCTS E \<and> n < MAX_PAGES E \<and> found \<noteq> []
          \<and> u \<noteq> [] \<and> u \<noteq> req_url rq
          \<and> findNextPage E (next_links pg) (req_url rq) n = Some u)"
  by (auto simp: paginate_def split: option.splits)

lemma label_detail_request_of: "req_label (detail_request_of p) = DETAIL"
  by (simp add: detail_request_of_def)

lemma match_pid_chokladhaj: "match_pid ''https://www.ikea.com/gb/en/p/chokladhaj-food-storage-box-40604574/'' = Some ''40604574''"
  by code_simp

lemma card_url_card0: "card_url env0 card0 = Some (''https://www.ikea.com/gb/en/p/chokladhaj-food-storage-box-40604574/'', None)"
  by (simp add: card_url_def env0_def card0_def)

lemma card_product_card0: "card_product env0 card0 ''40604574'' ''https://www.ikea.com/gb/en/p/chokladhaj-food-storage-box-40604574/'' None = record0"
  by (simp add: card_product_def env0_def card0_def record0_def card_name_def card_price_def price_match_def is_digit_def parseFloat0_def parseInt10_def digits_value_def is_space_def Let_def)

lemma enqueued_list_request:
  assumes run: "runHtmlCrawler_LIST E pg request st = (err, st')"
      and chain: "html_chain E pg (saved st) (seenProducts st) = (tr, err', productsFound, seen')"
      and new: "r \<in> set (drop (length (requestQueue st)) (requestQueue st'))"
      and list: "req_label r = LIST"
  shows "saved st' < MAX_PRODUCTS E \<and> page_number request < MAX_PAGES E
         \<and> productsFound \<noteq> [] \<and> req_url r \<noteq> req_url request
         \<and> req_pageNo r = page_number request + 1
         \<and> findNextPage E (next_links pg) (req_url request) (page_number request)
             = Some (req_url r)
         \<and> req_baseData r = JUndefined"
proof (cases err')
  case (Some e)
  with run chain have "requestQueue st' = requestQueue st"
    by (auto simp: runHtmlCrawler_LIST_def)
  with new show ?thesis by simp
next
  case None
  let ?st0 = "st\<lparr>seenProducts := seen'\<rparr>"
  let ?st1 = "emit_products E productsFound ?st0"
  from run chain None have st': "st' = paginate E pg request (page_number request) productsFound ?st1"
    by (simp add: runHtmlCrawler_LIST_def)
  from emit_products_effect [of E productsFound ?st0] obtain k where
    q1: "requestQueue ?st1 =
           requestQueue st @ map detail_request_of (filter (wants_detail E) (take k productsFound))"
    by auto
  from paginate_cases [of E pg request "page_number request" productsFound ?st1]
  show ?thesis
  proof
    assume "paginate E pg request (page_number request) productsFound ?st1 = ?st1"
    with st' q1 new have "r \<in> detail_request_of ` set (filter (wants_detail E) (take k productsFound))"
      by simp
    with list show ?thesis by (auto simp: label_detail_request_of)
  next
    assume "\<exists>u. paginate E pg request (page_number request) productsFound ?st1 =
            enqueue \<lparr>req_url = u, req_label = LIST, req_pageNo = page_number request + 1,
                      req_baseData = JUndefined\<rparr> ?st1
          \<and> saved ?st1 < MAX_PRODUCTS E \<and> page_number request < MAX_PAGES E \<and> productsFound \<noteq> []
          \<and> u \<noteq> [] \<and> u \<noteq> req_url request
          \<and> findNextPage E (next_links pg) (req_url request) (page_number request) = Some u"
    then obtain u where u:
      "paginate E pg request (page_number request) productsFound ?st1 =
            enqueue \<lparr>req_url = u, req_label = LIST, req_pageNo = page_number request + 1,
                      req_baseData = JUndefined\<rparr> ?st1"
      "saved ?st1 < MAX_PRODUCTS E" "page_number request < MAX_PAGES E" "productsFound \<noteq> []"
      "u \<noteq> req_url request"
      "findNextPage E (next_links pg) (req_url request) (page_number request) = Some u"
      by blast
    from st' u(1) q1 new
    have "r \<in> detail_request_of ` set (filter (wants_detail E) (take k productsFound))
          \<or> r = \<lparr>req_url = u, req_label = LIST, req_pageNo = page_number request + 1,
                      req_baseData = JUndefined\<rparr>"
      by (auto simp: enqueue_def)
    with list have r: "r = \<lparr>req_url = u, req_label = LIST, req_pageNo = page_number request + 1,
                      req_baseData = JUndefined\<rparr>"
      by (auto simp: label_detail_request_of)
    from st' u(1) have "saved st' = saved ?st1" by (simp add: enqueue_def)
    with u r show ?thesis by simp
  qed
qed

text \<open>
  C5.  After a listing page, the handler enqueues a next listing page only if the count of
  persisted records is below the product ceiling, the page number is below the page
  ceiling, and the page yielded at least one record; the request it enqueues never has
  the URL of the current page (\<^verbatim>\<open>nextUrl !== request.url\<close>), its page number is the
  current one plus one, and its URL is the one \<^verbatim>\<open>findNextPage\<close> computed.
\<close>

theorem next_page_only_if:
  assumes run: "runHtmlCrawler_LIST E pg request st = (err, st')"
      and chain: "html_chain E pg (saved st) (seenProducts st) = (tr, err', productsFound, seen')"
      and new: "r \<in> set (drop (length (requestQueue st)) (requestQueue st'))"
      and list: "req_label r = LIST"
  shows "saved st' < MAX_PRODUCTS E \<and> page_number request < MAX_PAGES E
         \<and> productsFound \<noteq> [] \<and> req_url r \<noteq> req_url request
         \<and> req_pageNo r = page_number request + 1
         \<and> findNextPage E (next_links pg) (req_url request) (page_number request)
             = Some (req_url r)"
  using enqueued_list_request [OF assms] by simp

lemma extract_page0: "extractProductsFromHtml env0 {} [[], [card0]] = ([record0], {''40604574''})"
  by (simp add: extractProductsFromHtml_def productElements_def
        extract_card_claim [OF card_url_card0 match_pid_chokladhaj] card_product_card0
        record0_def get_JObj)

lemma html_chain_page0:
  "html_chain env0 page0 0 {} = ([EmbeddedJson, DomHeuristic], None, [record0], {''40604574''})"
  by (simp add: html_chain_def page0_def extract_page0)

lemma findNextPage_req0:
  "findNextPage env0 [] ''https://www.ikea.com/gb/en/new/new-products/'' (Suc 0)
     = Some ''https://www.ikea.com/gb/en/new/new-products/?page=2''"
  by (simp add: findNextPage_def env0_def digit_char_def)

lemma env0_fields:
  "MAX_PRODUCTS env0 = 10" "MAX_PAGES env0 = 3" "collectDetails env0 = False"
  "category env0 = JStr ''new-products''" "base env0 = ''https://www.ikea.com/gb/en''"
  by (simp_all add: env0_def)

lemma emit_page0:
  "emit_products env0 [record0] (initial_state\<lparr>seenProducts := {''40604574''}\<rparr>) =
     \<lparr>saved = 1, seenProducts = {''40604574''}, dataset = [basic_record env0 record0],
      requestQueue = [], detailRequests = [], errorLog = []\<rparr>"
  by (simp add: initial_state_def env0_fields push_record_def)

lemma paginate_page0:
  "paginate env0 page0 req0 (page_number req0) [record0]
     \<lparr>saved = 1, seenProducts = {''40604574''}, dataset = [basic_record env0 record0],
      requestQueue = [], detailRequests = [], errorLog = []\<rparr> = after_page0"
  by (simp add: paginate_def page_number_def req0_def page0_def env0_fields findNextPage_req0
        enqueue_def after_page0_def next_request0_def)

lemma run_page0: "runHtmlCrawler_LIST env0 page0 req0 initial_state = (None, after_page0)"
proof -
  have "runHtmlCrawler_LIST env0 page0 req0 initial_state =
          (None, paginate env0 page0 req0 (page_number req0) [record0]
                   (emit_products env0 [record0] (initial_state\<lparr>seenProducts := {''40604574''}\<rparr>)))"
    by (simp add: runHtmlCrawler_LIST_def initial_state_def html_chain_page0)
  then show ?thesis
    by (simp only: emit_page0 paginate_page0)
qed

theorem next_page_only_if_witness:
  "runHtmlCrawler_LIST env0 page0 req0 initial_state = (None, after_page0)
   \<and> next_request0 \<in> set (drop (length (requestQueue initial_state)) (requestQueue after_page0))
   \<and> req_label next_request0 = LIST
   \<and> saved after_page0 < MAX_PRODUCTS env0 \<and> page_number req0 < MAX_PAGES env0
   \<and> req_url next_request0 \<noteq> req_url req0
   \<and> req_pageNo next_request0 = page_number req0 + 1"
proof -
  have chain: "html_chain env0 page0 (saved initial_state) (seenProducts initial_state)
                 = ([EmbeddedJson, DomHeuristic], None, [record0], {''40604574''})"
    by (simp add: initial_state_def html_chain_page0)
  have new: "next_request0 \<in> set (drop (length (requestQueue initial_state)) (requestQueue after_page0))"
    by (simp add: initial_state_def after_page0_def)
  have list: "req_label next_request0 = LIST"
    by (simp add: next_request0_def)
  from next_page_only_if [OF run_page0 chain new list] run_page0 new list
  show ?thesis by simp
qed

text \<open>
  C10.  Whenever \<^verbatim>\<open>processApiProduct\<close> returns a record, its \<^verbatim>\<open>availability\<close> is one of
  the two sentinel strings: \<^verbatim>\<open>'Available'\<close> exactly when the payload's \<^verbatim>\<open>availability\<close>
  or \<^verbatim>\<open>availableForClickAndCollect\<close> is truthy (the conditional tests the whole
  disjunction), \<^verbatim>\<open>'Check availability'\<close> otherwise.  The payload's own availability
  value is not copied.
\<close>

theorem processApiProduct_availability:
  assumes "processApiProduct E seen product = (Inr r, seen')" and "r \<noteq> JNull"
  shows "get r ''availability'' =
           (if truthy (get product ''availability'')
               \<or> truthy (get product ''availableForClickAndCollect'')
            then JStr ''Available'' else JStr ''Check availability'')
         \<and> get r ''availability'' \<in> {JStr ''Available'', JStr ''Check availability''}"
proof -
  from processApiProduct_record [OF assms] obtain productId u
    where "r = api_record E product productId u" by blast
  then show ?thesis by (simp add: api_record_availability)
qed

theorem processApiProduct_availability_witness:
  "processApiProduct env0 {} api_product0 =
     (Inr (api_record env0 api_product0 (JNum 40604574)
             (JStr ''https://www.ikea.com/gb/en/p/chokladhaj-food-box-40604574/'')),
      {''40604574''})
   \<and> get api_product0 ''availability'' = JStr ''In stock''
   \<and> get (api_record env0 api_product0 (JNum 40604574)
             (JStr ''https://www.ikea.com/gb/en/p/chokladhaj-food-box-40604574/''))
        ''availability'' = JStr ''Available''"
proof -
  have run: "processApiProduct env0 {} api_product0 =
     (Inr (api_record env0 api_product0 (JNum 40604574)
             (JStr ''https://www.ikea.com/gb/en/p/chokladhaj-food-box-40604574/'')),
      {''40604574''})"
    by (simp add: processApiProduct_def api_product0_def nullish_def js_or_def api_url_def
          show_int_40604574 Let_def get_JObj)
  have src: "get api_product0 ''availability'' = JStr ''In stock''"
    by (simp add: api_product0_def get_JObj)
  from processApiProduct_availability [OF run api_record_not_null] src run
  show ?thesis by simp
qed

lemma pid_basic_record:
  "distinct (map fst (own_props p)) \<Longrightarrow> pid (basic_record E p) = pid p"
  by (simp add: pid_def get_basic_record)





lemma fresh_records_keys:
  "fresh_records seen seen' rs \<Longrightarrow> r \<in> set rs \<Longrightarrow> distinct (map fst (own_props r))"
  by (auto simp: fresh_records_def)

lemma fresh_records_str:
  "fresh_records seen seen' rs \<Longrightarrow> r \<in> set rs \<Longrightarrow> \<exists>i. pid r = JStr i \<and> i \<in> seen'"
  by (auto simp: fresh_records_def)



lemma extract_cards_digits:
  assumes "extract_cards E cs (ps, seen) = (ps', seen')"
      and "\<forall>r\<in>set ps. \<exists>i. pid r = JStr i \<and> i \<noteq> [] \<and> (\<forall>ch\<in>set i. is_digit ch)"
  shows "\<forall>r\<in>set ps'. \<exists>i. pid r = JStr i \<and> i \<noteq> [] \<and> (\<forall>ch\<in>set i. is_digit ch)"
  using assms
proof (induction cs arbitrary: ps seen)
  case Nil
  then show ?case by simp
next
  case (Cons c cs)
  obtain ps1 seen1 where step: "extract_card E c (ps, seen) = (ps1, seen1)"
    by (cases "extract_card E c (ps, seen)")
  have "\<forall>r\<in>set ps1. \<exists>i. pid r = JStr i \<and> i \<noteq> [] \<and> (\<forall>ch\<in>set i. is_digit ch)"
  proof (cases "card_url E c")
    case None
    with step Cons.prems(2) show ?thesis by (simp add: extract_card_skip)
  next
    case (Some ua)
    obtain u a where ua: "ua = (u, a)" by (cases ua)
    show ?thesis
    proof (cases "match_pid u")
      case None
      with step Some ua Cons.prems(2) show ?thesis by (simp add: extract_card_unparsable)
    next
      case (Some i)
      note mi = this
      show ?thesis
      proof (cases "i \<in> seen")
        case True
        with step \<open>card_url E c = Some ua\<close> ua mi Cons.prems(2) show ?thesis
          by (simp add: extract_card_seen)
      next
        case False
        from match_pid_nonempty [OF mi]
        have "\<exists>j. pid (card_product E c i u a) = JStr j \<and> j \<noteq> [] \<and> (\<forall>ch\<in>set j. is_digit ch)"
          by (simp add: card_product_pid)
        with step \<open>card_url E c = Some ua\<close> ua mi False Cons.prems(2) show ?thesis
          by (auto simp: extract_card_claim split: if_splits)
      qed
    qed
  qed
  moreover from Cons.prems(1) step have "extract_cards E cs (ps1, seen1) = (ps', seen')" by simp
  ultimately show ?case by (rule Cons.IH [rotated])
qed

lemma runHtmlCrawler_LIST_effect:
  assumes "runHtmlCrawler_LIST E pg rq st = (err, st')"
  shows "\<exists>found k. fresh_records (seenProducts st) (seenProducts st') found
      \<and> dataset st' = dataset st @ map (basic_record E) (filter (\<lambda>p. \<not> wants_detail E p) (take k found))
      \<and> (\<forall>r \<in> set (drop (length (requestQueue st)) (requestQueue st')).
            req_label r = DETAIL \<longrightarrow> req_baseData r \<in> set found)"
proof -
  obtain tr e found seen' where chain:
    "html_chain E pg (saved st) (seenProducts st) = (tr, e, found, seen')"
    by (metis prod_cases4)
  from html_chain_fresh [OF chain] have fr: "fresh_records (seenProducts st) seen' found" .
  show ?thesis
  proof (cases e)
    case (Some x)
    with assms chain have st': "st' = st\<lparr>seenProducts := seen'\<rparr>"
      by (auto simp: runHtmlCrawler_LIST_def)
    show ?thesis
      by (rule exI [of _ found], rule exI [of _ 0]) (use fr st' in simp)
  next
    case None
    let ?st0 = "st\<lparr>seenProducts := seen'\<rparr>"
    let ?st1 = "emit_products E found ?st0"
    from assms chain None have st': "st' = paginate E pg rq (page_number rq) found ?st1"
      by (simp add: runHtmlCrawler_LIST_def)
    from emit_products_effect [of E found ?st0] obtain k where
      d1: "dataset ?st1 = dataset st @ map (basic_record E) (filter (\<lambda>p. \<not> wants_detail E p) (take k found))"
      and q1: "requestQueue ?st1 =
           requestQueue st @ map detail_request_of (filter (wants_detail E) (take k found))"
      by auto
    have s1: "seenProducts ?st1 = seen'"
      using emit_products_frame [of E found ?st0] by simp
    have base: "req_baseData r \<in> set found"
      if "r \<in> detail_request_of ` set (filter (wants_detail E) (take k found))" for r
      using that by (auto simp: detail_request_of_def dest: in_set_takeD)
    from paginate_cases [of E pg rq "page_number rq" found ?st1]
    show ?thesis
    proof
      assume same: "paginate E pg rq (page_number rq) found ?st1 = ?st1"
      show ?thesis
        by (rule exI [of _ found], rule exI [of _ k])
           (use fr st' same d1 q1 s1 base in auto)
    next
      assume "\<exists>u. paginate E pg rq (page_number rq) found ?st1 =
            enqueue \<lparr>req_url = u, req_label = LIST, req_pageNo = page_number rq + 1,
                      req_baseData = JUndefined\<rparr> ?st1
          \<and> saved ?st1 < MAX_PRODUCTS E \<and> page_number rq < MAX_PAGES E \<and> found \<noteq> []
          \<and> u \<noteq> [] \<and> u \<noteq> req_url rq
          \<and> findNextPage E (next_links pg) (req_url rq) (page_number rq) = Some u"
      then obtain u where u:
        "paginate E pg rq (page_number rq) found ?st1 =
            enqueue \<lparr>req_url = u, req_label = LIST, req_pageNo = page_number rq + 1,
                      req_baseData = JUndefined\<rparr> ?st1"
        by blast
      show ?thesis
        by (rule exI [of _ found], rule exI [of _ k])
           (use fr st' u d1 q1 s1 base in \<open>auto simp: enqueue_def\<close>)
    qed
  qed
qed





lemma extract_card0_seen:
  "extract_card env0 card0 (ps, {''40604574''}) = (ps, {''40604574''})"
  by (simp add: extract_card_seen [OF card_url_card0 match_pid_chokladhaj])




lemma env_detail_fields:
  "MAX_PRODUCTS env_detail = 10" "MAX_PAGES env_detail = 3" "collectDetails env_detail = True"
  "category env_detail = JStr ''new-products''" "base env_detail = ''https://www.ikea.com/gb/en''"
  by (simp_all add: env_detail_def env0_def)

lemma match_pid_billy:
  "match_pid ''https://www.ikea.com/gb/en/p/billy-bookcase-white-s49017827/'' = None"
  by code_simp

lemma map_of_detail_data_productId:
  "map_of (detail_data E u pg) ''productId'' = Some (js_or (of_opt (match_pid u)) JNull)"
  by (simp add: detail_data_def opt_field_def split: option.splits)





lemma own_props_extractProductDetails:
  "own_props (extractProductDetails E u page)
     = (case page of None \<Rightarrow> [] | Some pg \<Rightarrow> detail_data E u pg)"
  by (simp add: extractProductDetails_def split: option.splits)

lemma distinct_extractProductDetails:
  "distinct (map fst (own_props (extractProductDetails E u page)))"
  by (simp add: own_props_extractProductDetails distinct_detail_data split: option.splits)

lemma requestHandler_push:
  "saved st < MAX_PRODUCTS E \<Longrightarrow>
   dataset (runDetailCrawler_requestHandler E now page rq st) =
     dataset st @
       [merge_detail (js_or (req_baseData rq) (JObj []))
          (extractProductDetails E (req_url rq) page) (req_url rq)
          (js_or (js_or (category E) (get (js_or (req_baseData rq) (JObj [])) ''category'')) JNull)
          now]"
  by (simp add: runDetailCrawler_requestHandler_def push_record_def)


lemma distinct_billy_listing: "distinct (map fst (own_props billy_listing))"
  by (simp add: billy_listing_def)

lemma mapSik_billy: "mapSikProduct env_detail {} sik_billy = (Inr billy_listing, {''49017827''})"
proof -
  have id: "sik_id sik_billy = ''49017827''"
    by (simp add: sik_id_def sik_billy_def get_JObj js_or_def trim_def is_space_def)
  have img: "sik_image sik_billy = Inr JNull"
    by (simp add: sik_image_def sik_billy_def get_JObj nullish_def)
  have nm: "sik_name sik_billy = JStr ''BILLY Bookcase''"
    by (simp add: sik_name_def sik_billy_def get_JObj js_join_def trim_def is_space_def)
  have rec: "sik_record env_detail sik_billy ''49017827'' JNull = billy_listing"
    by (simp add: sik_record_def nm env_detail_fields billy_listing_def)
       (simp add: sik_billy_def get_JObj js_or_def js_qq_def opt_get_def nullish_def
          sik_availability_def of_opt_def env_detail_def env0_def)
  show ?thesis
    by (simp add: mapSikProduct_def id img rec) (simp add: sik_billy_def nullish_def)
qed

text \<open>
  C7, as stated, fails: \<^verbatim>\<open>mapSikProduct\<close> takes the id from the payload, so a product whose
  URL \<^verbatim>\<open>.../p/billy-bookcase-white-s49017827/\<close> has no id the pattern can parse is claimed and
  queued; and \<^verbatim>\<open>extractProductDetails\<close> then sets \<^verbatim>\<open>productId\<close> to \<^verbatim>\<open>null\<close>, which the merge
  writes over the listing id, so the record is persisted with a \<^verbatim>\<open>null\<close> id.
\<close>

theorem null_id_persisted_counterexample:
  "match_pid (req_url billy_request) = None
   \<and> mapSikProduct env_detail {} sik_billy = (Inr billy_listing, {''49017827''})
   \<and> get billy_listing ''url'' = JStr (req_url billy_request)
   \<and> get (last (dataset (runDetailCrawler_requestHandler env_detail now0 (Some blank_page)
                            billy_request initial_state))) ''productId'' = JNull"
proof -
  have u: "req_url billy_request = ''https://www.ikea.com/gb/en/p/billy-bookcase-white-s49017827/''"
    and b: "req_baseData billy_request = billy_listing"
    by (simp_all add: billy_request_def)
  have 1: "match_pid (req_url billy_request) = None"
    by (simp only: u match_pid_billy)
  have 3: "get billy_listing ''url'' = JStr (req_url billy_request)"
    by (simp add: u billy_listing_def get_JObj)
  have base: "js_or (req_baseData billy_request) (JObj []) = billy_listing"
    by (simp add: b js_or_def billy_listing_def)
  have "saved initial_state < MAX_PRODUCTS env_detail"
    by (simp add: initial_state_def env_detail_fields)
  from requestHandler_push [OF this, of now0 "Some blank_page" billy_request]
  have "last (dataset (runDetailCrawler_requestHandler env_detail now0 (Some blank_page)
                            billy_request initial_state))
        = merge_detail billy_listing
            (extractProductDetails env_detail (req_url billy_request) (Some blank_page))
            (req_url billy_request)
            (js_or (js_or (category env_detail) (get billy_listing ''category'')) JNull) now0"
    by (simp add: base)
  then have 4: "get (last (dataset (runDetailCrawler_requestHandler env_detail now0 (Some blank_page)
                            billy_request initial_state))) ''productId'' = JNull"
    by (simp add: get_merge_detail [OF distinct_billy_listing distinct_extractProductDetails]
          own_props_extractProductDetails map_of_detail_data_productId 1 of_opt_def js_or_def)
  from 1 mapSik_billy 3 4 show ?thesis by blast
qed

lemma card_url_unparsable:
  "card_url env0 card_unparsable
     = Some (''https://www.ikea.com/gb/en/p/billy-bookcase-white-s49017827/'', None)"
  by (simp add: card_url_def env0_def card_unparsable_def)

lemma extract_page_unparsable:
  "extractProductsFromHtml env0 {} [[card_unparsable, card0]] = ([record0], {''40604574''})"
  by (simp add: extractProductsFromHtml_def productElements_def
        extract_card_unparsable [OF card_url_unparsable match_pid_billy]
        extract_card_claim [OF card_url_card0 match_pid_chokladhaj] card_product_card0)
     (simp add: record0_def get_JObj)

text \<open>
  C7 (amended).  In \<^verbatim>\<open>extractProductsFromHtml\<close> a card whose product URL has no numeric
  id after the \<^verbatim>\<open>/p/\<close> marker is skipped with the products and \<^verbatim>\<open>seenProducts\<close> as they
  were; every record the extractor emits has a non-empty id of digits; and every record
  the listing handler persists, and every record it hands on for a detail fetch, has a
  string as its id (never \<^verbatim>\<open>null\<close>).
\<close>

theorem listing_records_have_ids:
  assumes page: "extractProductsFromHtml E seen d = (ps, seen')"
      and run: "runHtmlCrawler_LIST E pg rq st = (err, st')"
      and url: "card_url E c = Some (u, a)" and unparsable: "match_pid u = None"
  shows "extract_card E c st0 = st0
     \<and> (\<forall>r\<in>set ps. \<exists>i. get r ''productId'' = JStr i \<and> i \<noteq> [] \<and> (\<forall>ch\<in>set i. is_digit ch))
     \<and> (\<forall>r\<in>set (drop (length (dataset st)) (dataset st')). \<exists>i. get r ''productId'' = JStr i)
     \<and> (\<forall>r\<in>set (drop (length (requestQueue st)) (requestQueue st')).
           req_label r = DETAIL \<longrightarrow> (\<exists>i. get (req_baseData r) ''productId'' = JStr i))"
proof -
  have 1: "extract_card E c st0 = st0"
    by (rule extract_card_unparsable [OF url unparsable])
  from page have "extract_cards E (productElements d) ([], seen) = (ps, seen')"
    by (simp add: extractProductsFromHtml_def)
  from extract_cards_digits [OF this]
  have 2: "\<forall>r\<in>set ps. \<exists>i. get r ''productId'' = JStr i \<and> i \<noteq> [] \<and> (\<forall>ch\<in>set i. is_digit ch)"
    by (simp add: pid_def)
  from runHtmlCrawler_LIST_effect [OF run] obtain found k where
    fr: "fresh_records (seenProducts st) (seenProducts st') found"
    and ds: "dataset st' = dataset st @ map (basic_record E) (filter (\<lambda>p. \<not> wants_detail E p) (take k found))"
    and rq: "\<forall>r \<in> set (drop (length (requestQueue st)) (requestQueue st')).
            req_label r = DETAIL \<longrightarrow> req_baseData r \<in> set found"
    by blast
  have 3: "\<forall>r\<in>set (drop (length (dataset st)) (dataset st')). \<exists>i. get r ''productId'' = JStr i"
  proof
    fix r assume "r \<in> set (drop (length (dataset st)) (dataset st'))"
    with ds obtain p where p: "p \<in> set found" and r: "r = basic_record E p"
      by (auto dest: in_set_takeD)
    from fresh_records_keys [OF fr p] have "pid r = pid p"
      by (simp add: r pid_basic_record)
    with fresh_records_str [OF fr p] show "\<exists>i. get r ''productId'' = JStr i"
      by (auto simp: pid_def)
  qed
  have 4: "\<forall>r\<in>set (drop (length (requestQueue st)) (requestQueue st')).
           req_label r = DETAIL \<longrightarrow> (\<exists>i. get (req_baseData r) ''productId'' = JStr i)"
  proof (intro ballI impI)
    fix r assume "r \<in> set (drop (length (requestQueue st)) (requestQueue st'))"
      and "req_label r = DETAIL"
    with rq have "req_baseData r \<in> set found" by blast
    from fresh_records_str [OF fr this] show "\<exists>i. get (req_baseData r) ''productId'' = JStr i"
      by (auto simp: pid_def)
  qed
  from 1 2 3 4 show ?thesis by blast
qed

theorem listing_records_have_ids_witness:
  "card_url env0 card_unparsable = Some (card_billy_url, None)
   \<and> match_pid card_billy_url = None
   \<and> extract_card env0 card_unparsable ([], {}) = ([], {})
   \<and> extractProductsFromHtml env0 {} [[card_unparsable, card0]] = ([record0], {''40604574''})
   \<and> get record0 ''productId'' = JStr ''40604574''
   \<and> runHtmlCrawler_LIST env0 page0 req0 initial_state = (None, after_page0)"
proof -
  have u: "card_url env0 card_unparsable = Some (card_billy_url, None)"
    by (simp only: card_billy_url_def card_url_unparsable)
  have m: "match_pid card_billy_url = None"
    by (simp only: card_billy_url_def match_pid_billy)
  have g: "get record0 ''productId'' = JStr ''40604574''"
    by (simp add: record0_def get_JObj)
  from listing_records_have_ids [OF extract_page_unparsable run_page0 u m, of "([], {})"]
       u m g extract_page_unparsable run_page0
  show ?thesis by simp
qed

lemma api_record_currency: "truthy (get (api_record E p i u) ''currency'')"
  by (simp add: api_record_def get_JObj truthy_js_or)

text \<open>
  C6 (amended).  Price and currency are set independently of each other: every record
  that the second revision's \<^verbatim>\<open>extractProductsFromHtml\<close> emits has a price and a \<^verbatim>\<open>null\<close>
  currency, and every record that \<^verbatim>\<open>processApiProduct\<close> returns has a currency (\<^verbatim>\<open>'GBP'\<close>
  by default), whatever its price.
\<close>

theorem price_currency_independent:
  assumes page: "extractProductsFromHtml E seen d = (ps, seen')"
      and api: "processApiProduct E seen2 p = (Inr r, seen2')" and rec: "r \<noteq> JNull"
  shows "(\<forall>q\<in>set ps. truthy (get q ''price'') \<and> get q ''currency'' = JNull)
         \<and> truthy (get r ''currency'')"
proof -
  from processApiProduct_record [OF api rec] obtain i u where "r = api_record E p i u" by blast
  then have "truthy (get r ''currency'')" by (simp add: api_record_currency)
  with extractProductsFromHtml_fresh [OF page] show ?thesis by blast
qed

lemma process_unpriced:
  "processApiProduct env0 {} api_product_unpriced =
     (Inr (api_record env0 api_product_unpriced (JStr ''10275814'')
             (JStr ''https://www.ikea.com/gb/en/p/kallax-10275814/'')), {''10275814''})"
  by (simp add: processApiProduct_def api_product_unpriced_def nullish_def js_or_def api_url_def
        Let_def get_JObj name_slug_def toLowerCase_def lower_char_def replace_ws_def
        is_space_def of_opt_def env0_def)

theorem price_currency_independent_witness:
  "extractProductsFromHtml env0 {} [[], [card0]] = ([record0], {''40604574''})
   \<and> get record0 ''price'' = JNum 10 \<and> get record0 ''currency'' = JNull
   \<and> get (api_record env0 api_product_unpriced (JStr ''10275814'')
             (JStr ''https://www.ikea.com/gb/en/p/kallax-10275814/'')) ''price'' = JNull
   \<and> get (api_record env0 api_product_unpriced (JStr ''10275814'')
             (JStr ''https://www.ikea.com/gb/en/p/kallax-10275814/'')) ''currency'' = JStr ''GBP''"
proof -
  have p: "get (api_record env0 api_product_unpriced (JStr ''10275814'')
             (JStr ''https://www.ikea.com/gb/en/p/kallax-10275814/'')) ''price'' = JNull"
    and c: "get (api_record env0 api_product_unpriced (JStr ''10275814'')
             (JStr ''https://www.ikea.com/gb/en/p/kallax-10275814/'')) ''currency'' = JStr ''GBP''"
    by (simp_all add: api_record_def api_product_unpriced_def get_JObj js_or_def opt_get_def
          nullish_def)
  have g: "get record0 ''price'' = JNum 10" "get record0 ''currency'' = JNull"
    by (simp_all add: record0_def get_JObj)
  from price_currency_independent [OF extract_page0 process_unpriced api_record_not_null]
       extract_page0 p c g
  show ?thesis by simp
qed

text \<open>
  C6, as stated, fails: in basic mode the listing handler persists the record of a card
  with a name and a price, and that record has the price 10 and the currency \<^verbatim>\<open>null\<close>.
\<close>

theorem price_without_currency_counterexample:
  "dataset (snd (runHtmlCrawler_LIST env0 page0 req0 initial_state)) = [basic_record env0 record0]
   \<and> get (basic_record env0 record0) ''price'' = JNum 10
   \<and> get (basic_record env0 record0) ''currency'' = JNull"
proof -
  have d: "distinct (map fst (own_props record0))"
    by (simp add: record0_def)
  have "get (basic_record env0 record0) ''price'' = JNum 10"
    and "get (basic_record env0 record0) ''currency'' = JNull"
    by (simp_all add: get_basic_record [OF d]) (simp_all add: record0_def get_JObj)
  then show ?thesis
    by (simp add: run_page0 after_page0_def)
qed











lemma detail_steps_uninterrupted:
  "snd (run_schedule E now [0, 0, 0] ([detail_task_of rq page], st))
     = runHtmlCrawler_DETAIL E now page rq st"
  by (simp add: detail_step_def detail_task_of_def runHtmlCrawler_DETAIL_def push_record_def)

lemma DETAIL_budget:
  "saved st \<le> MAX_PRODUCTS E \<Longrightarrow> saved (runHtmlCrawler_DETAIL E now page rq st) \<le> MAX_PRODUCTS E"
  by (simp add: runHtmlCrawler_DETAIL_def push_record_def)

lemma env_one_fields: "MAX_PRODUCTS env_one = 1" "category env_one = JStr ''new-products''"
  by (simp_all add: env_one_def env0_def)

text \<open>
  C4.  With a ceiling of one product and two detail pages in flight, both handlers pass the
  test \<^verbatim>\<open>saved >= MAX_PRODUCTS\<close> before either has counted its record: two records are
  persisted and \<^verbatim>\<open>saved\<close> ends at 2.  Run one after the other, the same two handlers
  persist one record.
\<close>

theorem budget_exceeded_by_interleaving:
  "MAX_PRODUCTS env_one = 1
   \<and> length (dataset (snd (run_schedule env_one now0 [0, 1, 0, 1, 0, 1]
                               (two_tasks, initial_state)))) = 2
   \<and> saved (snd (run_schedule env_one now0 [0, 1, 0, 1, 0, 1] (two_tasks, initial_state))) = 2
   \<and> map t_pc (fst (run_schedule env_one now0 [0, 1, 0, 1, 0, 1] (two_tasks, initial_state)))
        = [Finished, Finished]
   \<and> length (dataset (snd (run_schedule env_one now0 [0, 0, 0, 1, 1, 1]
                               (two_tasks, initial_state)))) = 1"
  by (simp add: two_tasks_def detail_task_of_def detail_step_def initial_state_def env_one_fields)

lemma embedded_stage_cases:
  assumes "embedded_stage X E pg s seen = (t2, e2, fd2, sn2)"
  shows "(t2 = [EmbeddedJson] \<or> t2 = [EmbeddedJson, DomHeuristic])
       \<and> (embedded_yield E pg s seen \<noteq> [] \<longrightarrow> t2 = [EmbeddedJson] \<and> fd2 = embedded_yield E pg s seen)"
proof (cases "embedded_products pg")
  case None
  with assms show ?thesis
    by (auto simp: embedded_stage_def embedded_yield_def split: option.splits prod.splits)
next
  case (Some ps)
  show ?thesis
  proof (cases ps)
    case Nil
    with Some assms show ?thesis
      by (auto simp: embedded_stage_def embedded_yield_def split: option.splits prod.splits)
  next
    case (Cons p ps')
    obtain err found sn where r:
      "process_products (processApiProduct E) (MAX_PRODUCTS E) s (p # ps') ([], seen) = (err, found, sn)"
      by (metis prod_cases3)
    with Some Cons assms have "t2 = [EmbeddedJson]" "fd2 = found"
      by (simp_all add: embedded_stage_def)
    moreover from Some Cons r have "embedded_yield E pg s seen = found"
      by (simp add: embedded_yield_def)
    ultimately show ?thesis by simp
  qed
qed

lemma dom_stage_cases:
  "dom_stage X pg seen = (t3, f3, s3) \<Longrightarrow> t3 = [] \<or> t3 = [DomHeuristic]"
  by (auto simp: dom_stage_def split: option.splits prod.splits)

lemma api_chain_cases:
  assumes v1: "api_chain X E pg s seen = (tr, err, found, seen')"
      and st1: "api_stage E pg s seen = (e1, f1, s1)"
  shows "tr \<in> {[StructuredApi], [StructuredApi, EmbeddedJson],
               [StructuredApi, EmbeddedJson, DomHeuristic],
               [StructuredApi, EmbeddedJson, DomHeuristic, DomHeuristic]}
     \<and> (f1 \<noteq> [] \<longrightarrow> tr = [StructuredApi] \<and> found = f1)
     \<and> (e1 = None \<and> f1 = [] \<and> embedded_yield E pg s s1 \<noteq> []
          \<longrightarrow> tr = [StructuredApi, EmbeddedJson] \<and> found = embedded_yield E pg s s1)"
proof (cases e1)
  case (Some e)
  with v1 st1 show ?thesis by (auto simp: api_chain_def)
next
  case None
  note e1 = this
  show ?thesis
  proof (cases "f1 = []")
    case False
    with v1 st1 e1 show ?thesis by (simp add: api_chain_def)
  next
    case True
    obtain t2 e2 fd2 sn2 where es: "embedded_stage X E pg s s1 = (t2, e2, fd2, sn2)"
      by (metis prod_cases4)
    note ec = embedded_stage_cases [OF es]
    show ?thesis
    proof (cases e2)
      case (Some e)
      with v1 st1 e1 True es have "tr = StructuredApi # t2" "found = fd2"
        by (simp_all add: api_chain_def)
      with ec True show ?thesis by auto
    next
      case None
      show ?thesis
      proof (cases "fd2 = []")
        case False
        with v1 st1 e1 True es None have "tr = StructuredApi # t2" "found = fd2"
          by (simp_all add: api_chain_def)
        with ec True show ?thesis by auto
      next
        case fd: True
        obtain t3 f3 s3 where ds: "dom_stage X pg sn2 = (t3, f3, s3)"
          by (metis prod_cases3)
        with v1 st1 e1 True es None fd have "tr = StructuredApi # t2 @ t3"
          by (simp add: api_chain_def)
        with ec dom_stage_cases [OF ds] True fd show ?thesis by auto
      qed
    qed
  qed
qed

lemma html_chain_cases:
  assumes v2: "html_chain E pg s seen = (tr, err, found, seen')"
  shows "tr \<in> {[EmbeddedJson], [EmbeddedJson, DomHeuristic]}
     \<and> (jsonld_yield E pg s seen \<noteq> [] \<longrightarrow> tr = [EmbeddedJson] \<and> found = jsonld_yield E pg s seen)"
proof -
  obtain e1 f1 s1 where st1:
    "(case json_products pg of None \<Rightarrow> (None, [], seen)
      | Some ps \<Rightarrow> process_products (processJsonLdProduct E) (MAX_PRODUCTS E) s ps ([], seen))
     = (e1, f1, s1)"
    by (metis prod_cases3)
  then have y: "jsonld_yield E pg s seen = f1"
    by (simp add: jsonld_yield_def split: option.splits)
  show ?thesis
  proof (cases e1)
    case (Some e)
    with v2 st1 y show ?thesis by (simp add: html_chain_def)
  next
    case None
    show ?thesis
    proof (cases "f1 = []")
      case False
      with v2 st1 y None show ?thesis by (simp add: html_chain_def)
    next
      case True
      with v2 st1 y None show ?thesis
        by (auto simp: html_chain_def split: option.splits prod.splits)
    qed
  qed
qed

text \<open>
  C1 (amended).  On every listing page the strategies are invoked in the fixed order
  structured API, embedded JSON, DOM heuristics (the second revision's handler has the last
  two only), and as soon as one strategy has added a record to \<^verbatim>\<open>productsFound\<close>, no
  strategy of lower priority is invoked: \<^verbatim>\<open>productsFound\<close> is what that strategy added.
\<close>

theorem chain_short_circuit:
  assumes v1: "api_chain extractHtml E pg s seen = (tr, err, found, seen')"
      and st1: "api_stage E pg s seen = (e1, f1, s1)"
      and v2: "html_chain E pg2 s2 seen2 = (tr2, err2, found2, seen2')"
  shows "tr \<in> {[StructuredApi], [StructuredApi, EmbeddedJson],
               [StructuredApi, EmbeddedJson, DomHeuristic],
               [StructuredApi, EmbeddedJson, DomHeuristic, DomHeuristic]}
     \<and> sorted (map priority tr)
     \<and> (f1 \<noteq> [] \<longrightarrow> tr = [StructuredApi] \<and> found = f1)
     \<and> (e1 = None \<and> f1 = [] \<and> embedded_yield E pg s s1 \<noteq> []
          \<longrightarrow> tr = [StructuredApi, EmbeddedJson] \<and> found = embedded_yield E pg s s1)
     \<and> tr2 \<in> {[EmbeddedJson], [EmbeddedJson, DomHeuristic]}
     \<and> sorted (map priority tr2)
     \<and> (jsonld_yield E pg2 s2 seen2 \<noteq> []
          \<longrightarrow> tr2 = [EmbeddedJson] \<and> found2 = jsonld_yield E pg2 s2 seen2)"
proof -
  note a = api_chain_cases [OF v1 st1]
  note h = html_chain_cases [OF v2]
  from a have "sorted (map priority tr)" by auto
  moreover from h have "sorted (map priority tr2)" by auto
  ultimately show ?thesis using a h by blast
qed

lemma truthy_api_record: "truthy (api_record E p i u)"
  by (simp add: api_record_def)

lemma truthy_jsonld_record: "truthy (jsonld_record E p i)"
  by (simp add: jsonld_record_def Let_def)

lemma process_api_product0:
  "processApiProduct env0 {} api_product0 =
     (Inr (api_record env0 api_product0 (JNum 40604574)
             (JStr ''https://www.ikea.com/gb/en/p/chokladhaj-food-box-40604574/'')),
      {''40604574''})"
  by (simp add: processApiProduct_def api_product0_def nullish_def js_or_def api_url_def
        show_int_40604574 Let_def get_JObj)

lemma api_stage_fixture:
  "api_stage env0 fixture_v1 0 {} =
     (None, [api_record env0 api_product0 (JNum 40604574)
               (JStr ''https://www.ikea.com/gb/en/p/chokladhaj-food-box-40604574/'')],
      {''40604574''})"
  by (simp add: api_stage_def fixture_v1_def env0_fields process_api_product0 truthy_api_record)

lemma api_chain_fixture:
  "api_chain (extractProductsFromHtml env0) env0 fixture_v1 0 {} =
     ([StructuredApi], None,
      [api_record env0 api_product0 (JNum 40604574)
               (JStr ''https://www.ikea.com/gb/en/p/chokladhaj-food-box-40604574/'')],
      {''40604574''})"
  by (simp add: api_chain_def api_stage_fixture)

lemma process_jsonld_item0:
  "processJsonLdProduct env0 {} jsonld_item0 =
     (Inr (jsonld_record env0 jsonld_item0 (JStr ''10275814'')), {''10275814''})"
  by (simp add: processJsonLdProduct_def jsonld_id_def jsonld_item0_def nullish_def js_or_def
        get_JObj opt_get_def)

lemma html_chain_fixture:
  "html_chain env0 fixture_v2 0 {} =
     ([EmbeddedJson], None, [jsonld_record env0 jsonld_item0 (JStr ''10275814'')], {''10275814''})"
  by (simp add: html_chain_def fixture_v2_def env0_fields process_jsonld_item0
        truthy_jsonld_record)

theorem chain_short_circuit_witness:
  "api_chain (extractProductsFromHtml env0) env0 fixture_v1 0 {} =
     ([StructuredApi], None,
      [api_record env0 api_product0 (JNum 40604574)
               (JStr ''https://www.ikea.com/gb/en/p/chokladhaj-food-box-40604574/'')],
      {''40604574''})
   \<and> embedded_products fixture_v1 = Some [api_product_unpriced]
   \<and> current_dom fixture_v1 = Some [[card0]]
   \<and> html_chain env0 fixture_v2 0 {} =
     ([EmbeddedJson], None, [jsonld_record env0 jsonld_item0 (JStr ''10275814'')], {''10275814''})
   \<and> page_dom fixture_v2 = Some [[card0]]"
proof -
  have f: "embedded_products fixture_v1 = Some [api_product_unpriced]"
    "current_dom fixture_v1 = Some [[card0]]" "page_dom fixture_v2 = Some [[card0]]"
    by (simp_all add: fixture_v1_def fixture_v2_def)
  from chain_short_circuit [OF api_chain_fixture api_stage_fixture html_chain_fixture]
       api_chain_fixture html_chain_fixture f
  show ?thesis by simp
qed

lemma process_api_product0_seen:
  "processApiProduct env0 {''40604574''} api_product0 = (Inr JNull, {''40604574''})"
  by (simp add: processApiProduct_def api_product0_def nullish_def js_or_def
        show_int_40604574 Let_def get_JObj)

text \<open>
  C1, as stated, fails: on a page for which \<^verbatim>\<open>tryInternalApi\<close> returns a product that an
  earlier page has claimed, the API strategy has yielded a candidate, yet
  \<^verbatim>\<open>productsFound\<close> stays empty and the embedded-JSON and the DOM strategy are invoked.
\<close>

theorem lower_strategy_after_api_products_counterexample:
  "api_products fixture_seen = Some [api_product0]
   \<and> api_chain (extractProductsFromHtml env0) env0 fixture_seen 0 {''40604574''}
       = ([StructuredApi, EmbeddedJson, DomHeuristic], None, [], {''40604574''})"
proof -
  have a: "api_products fixture_seen = Some [api_product0]"
    by (simp add: fixture_seen_def)
  have 1: "api_stage env0 fixture_seen 0 {''40604574''} = (None, [], {''40604574''})"
    by (simp add: api_stage_def a env0_fields process_api_product0_seen)
  have 2: "embedded_stage (extractProductsFromHtml env0) env0 fixture_seen 0 {''40604574''}
             = ([EmbeddedJson], None, [], {''40604574''})"
    by (simp add: embedded_stage_def fixture_seen_def)
  have "extractProductsFromHtml env0 {''40604574''} [[card0]] = ([], {''40604574''})"
    by (simp add: extractProductsFromHtml_def productElements_def extract_card0_seen)
  then have 3: "dom_stage (extractProductsFromHtml env0) fixture_seen {''40604574''}
             = ([DomHeuristic], [], {''40604574''})"
    by (simp add: dom_stage_def fixture_seen_def)
  from a show ?thesis
    by (simp add: api_chain_def 1 2 3)
qed























end
